theory Spec2Isabelle
  imports Main "HOL-Library.Sublist" "HOL-Library.AList"
begin

section \<open>Shared data model (types/recording.ts)\<close>

text \<open>
  The interfaces of \<^verbatim>\<open>types/recording.ts\<close> as records. An optional field
  (\<^verbatim>\<open>name?: string\<close>) is an \<open>option\<close>; numbers that hold millisecond
  timestamps and tab identifiers are \<open>int\<close>. Field names that several interfaces
  share, or that are keywords here, carry the interface as a prefix.
\<close>

record ElementInfo =
  tag :: string
  info_text :: string
  selector :: string
  info_type :: "string option"
  info_name :: "string option"
  info_id :: "string option"
  className :: "string option"
  ariaLabel :: "string option"

datatype step_type = Click | Input | Navigation

record RecordingStep =
  step_id :: string
  step_timestamp :: int
  step_type :: step_type
  tabId :: int
  tabTitle :: string
  step_url :: string
  screenshotData :: "string option"
  audioData :: "string option"
  element :: "ElementInfo option"
  inputValue :: "string option"
  isSensitive :: "bool option"

record Annotation =
  ann_id :: string
  ann_timestamp :: int
  ann_text :: string
  ann_screenshotData :: "string option"
  ann_audioData :: "string option"

record RecordingSession =
  session_id :: string
  title :: string
  startTime :: int
  endTime :: "int option"
  isRecording :: bool
  hasAudio :: bool
  steps :: "RecordingStep list"
  annotations :: "Annotation list"
  trackedTabIds :: "int list"

text \<open>\<^verbatim>\<open>InputEventMessage\<close> and \<open>ClickEventMessage\<close>, without the constant \<open>type\<close> tag.\<close>

record InputEventMessage =
  msg_element :: ElementInfo
  msg_value :: string
  msg_isSensitive :: bool
  msg_url :: string
  msg_timestamp :: int

text \<open>JavaScript truthiness of the values the code tests with \<open>if\<close>, \<open>!\<close> and \<open>||\<close>.\<close>

definition truthy_num :: "int option \<Rightarrow> bool" where
  "truthy_num x = (case x of None \<Rightarrow> False | Some n \<Rightarrow> n \<noteq> 0)"

definition truthy_str :: "string option \<Rightarrow> bool" where
  "truthy_str x = (case x of None \<Rightarrow> False | Some s \<Rightarrow> s \<noteq> [])"

definition or_str :: "string option \<Rightarrow> string \<Rightarrow> string" where
  "or_str x d = (case x of None \<Rightarrow> d | Some s \<Rightarrow> if s = [] then d else s)"

section \<open>Session orchestrator (background/index.ts)\<close>

text \<open>
  The service worker keeps two module variables, \<open>currentSession\<close> and \<open>readyTabs\<close>.
  A handler is modelled as a function from the state before to the state after. What a
  handler reads from the browser while it runs is the record \<open>env\<close>: the clock, the
  random part of generated identifiers, the active tab, \<^verbatim>\<open>chrome.tabs.get\<close> and
  \<^verbatim>\<open>chrome.tabs.captureVisibleTab\<close> (\<open>None\<close> where the promise rejects), and whether
  \<^verbatim>\<open>chrome.storage.local\<close> rejects. Messages sent to tabs and to the side panel are
  caught by the code when they fail and their answers never feed back into the session;
  they are left out of the handlers. The writes to storage are not read back into the
  session either, but
  \<open>startRecording\<close> and \<open>stopRecording\<close> await them outside any \<open>try\<close>, so their
  rejection is an error of these two functions.

  The handlers are \<open>async\<close>: at an \<open>await\<close> other handlers may run. \<open>startRecording\<close>
  is modelled with its suspensions, as \<open>startRecording_with\<close>. Each of the other
  handlers is modelled as one step: it is the handler as it runs when no other handler
  changes the state during its suspensions.
\<close>

record tab =
  tab_id :: "int option"
  tab_title :: "string option"
  tab_url :: "string option"
  windowId :: int
  openerTabId :: "int option"

record env =
  dateNow :: int
  fresh :: "nat \<Rightarrow> string"
  queryActiveTab :: "tab option"
  tabsGet :: "int \<Rightarrow> tab option"
  captureVisibleTab :: "int \<Rightarrow> string option"
  storageRejects :: bool

record bg_state =
  currentSession :: "RecordingSession option"
  readyTabs :: "int set"

text \<open>
  The errors a handler can end with: the \<open>Error\<close> thrown by \<open>startRecording\<close>, the
  rejection of a storage call, and the \<open>TypeError\<close> of reading a property of \<open>null\<close>.
\<close>

datatype bg_error = NoActiveTabFound | StorageError | TypeError

text \<open>
  \<^verbatim>\<open>generateUniqueId(prefix)\<close> is \<^verbatim>\<open>`${prefix}${Date.now()}_${Math.random()...}`\<close>;
  \<open>fresh env k\<close> stands for the part after the prefix in the \<open>k\<close>-th call of a handler.
\<close>

definition generateUniqueId :: "env \<Rightarrow> nat \<Rightarrow> string \<Rightarrow> string" where
  "generateUniqueId ev k pre = pre @ fresh ev k"

definition captureScreenshot :: "env \<Rightarrow> int \<Rightarrow> string option" where
  "captureScreenshot ev tid =
     (case tabsGet ev tid of
        None \<Rightarrow> None
      | Some t \<Rightarrow> if windowId t = 0 then None else captureVisibleTab ev (windowId t))"

text \<open>
  The highlight is shown before and hidden after the capture when a selector is given;
  both are messages to the tab whose outcome is ignored, so the result is the capture.
\<close>

definition captureScreenshotWithHighlight :: "env \<Rightarrow> int \<Rightarrow> string option \<Rightarrow> string option" where
  "captureScreenshotWithHighlight ev tid sel = captureScreenshot ev tid"

text \<open>
  \<open>saveSessionMetadata\<close> returns at once when there is no session; otherwise it reads
  and writes \<^verbatim>\<open>chrome.storage.local\<close>, and rejects when the storage does.
\<close>

definition saveSessionMetadata :: "env \<Rightarrow> bg_state \<Rightarrow> bg_error option" where
  "saveSessionMetadata ev s =
     (case currentSession s of
        None \<Rightarrow> None
      | Some cs \<Rightarrow> if storageRejects ev then Some StorageError else None)"

text \<open>
  \<open>startRecording\<close> in its three synchronous stretches. The first runs when
  \<^verbatim>\<open>chrome.tabs.query\<close> has answered: it throws without an active tab and otherwise
  assigns the new session, still without steps. The second runs when
  \<open>enableRecordingInTab\<close> and \<open>captureScreenshot\<close> have been awaited: it pushes the
  initial step onto whatever \<open>currentSession\<close> then is. The third awaits
  \<open>saveSessionMetadata\<close> and returns \<open>currentSession\<close>.
\<close>

definition startRecording_create ::
    "env \<Rightarrow> string \<Rightarrow> bool \<Rightarrow> bg_state \<Rightarrow> bg_error + (tab \<times> int \<times> bg_state)" where
  "startRecording_create ev ttl audio s =
     (case queryActiveTab ev of
        None \<Rightarrow> Inl NoActiveTabFound
      | Some activeTab \<Rightarrow>
          (case tab_id activeTab of
             None \<Rightarrow> Inl NoActiveTabFound
           | Some aid \<Rightarrow>
               if aid = 0 then Inl NoActiveTabFound
               else
                 let session = \<lparr> session_id = generateUniqueId ev 0 ''session_'',
                       title = ttl, startTime = dateNow ev, endTime = None,
                       isRecording = True, hasAudio = audio, steps = [],
                       annotations = [], trackedTabIds = [aid] \<rparr>
                 in Inr (activeTab, aid, s\<lparr>currentSession := Some session\<rparr>)))"

definition startRecording_push :: "env \<Rightarrow> tab \<Rightarrow> int \<Rightarrow> bg_state \<Rightarrow> bg_error + bg_state" where
  "startRecording_push ev activeTab aid s =
     (let initialStep = \<lparr> step_id = generateUniqueId ev 1 ''step_'',
            step_timestamp = 0, step_type = Navigation, tabId = aid,
            tabTitle = or_str (tab_title activeTab) ''Untitled'',
            step_url = or_str (tab_url activeTab) [],
            screenshotData = captureScreenshot ev aid, audioData = None,
            element = None, inputValue = None, isSensitive = None \<rparr>
      in case currentSession s of
           None \<Rightarrow> Inl TypeError
         | Some cs \<Rightarrow> Inr (s\<lparr>currentSession := Some (cs\<lparr>steps := steps cs @ [initialStep]\<rparr>)\<rparr>))"

definition startRecording_return :: "env \<Rightarrow> bg_state \<Rightarrow> bg_error + RecordingSession option" where
  "startRecording_return ev s =
     (case saveSessionMetadata ev s of
        Some err \<Rightarrow> Inl err
      | None \<Rightarrow> Inr (currentSession s))"

text \<open>
  The whole call. \<open>during_capture\<close> is what other handlers do to the state while
  \<open>startRecording\<close> is suspended between the first and the second stretch,
  \<open>during_save\<close> what they do between the second and the third. The result is the
  session returned or the error thrown, and the state then.
\<close>

definition startRecording_with ::
    "env \<Rightarrow> string \<Rightarrow> bool \<Rightarrow> (bg_state \<Rightarrow> bg_state) \<Rightarrow> (bg_state \<Rightarrow> bg_state) \<Rightarrow> bg_state
       \<Rightarrow> (bg_error + RecordingSession option) \<times> bg_state" where
  "startRecording_with ev ttl audio during_capture during_save s =
     (case startRecording_create ev ttl audio s of
        Inl err \<Rightarrow> (Inl err, s)
      | Inr (activeTab, aid, s1) \<Rightarrow>
          (case startRecording_push ev activeTab aid (during_capture s1) of
             Inl err \<Rightarrow> (Inl err, during_capture s1)
           | Inr s2 \<Rightarrow> (startRecording_return ev (during_save s2), during_save s2)))"

text \<open>\<open>startRecording\<close> with no other handler running during its suspensions.\<close>

definition startRecording ::
    "env \<Rightarrow> string \<Rightarrow> bool \<Rightarrow> bg_state \<Rightarrow> (bg_error + RecordingSession option) \<times> bg_state" where
  "startRecording ev ttl audio s = startRecording_with ev ttl audio id id s"

text \<open>
  \<open>stopRecording\<close> assigns \<open>isRecording\<close> and \<open>endTime\<close>, then tells the tracked tabs
  to stop, then awaits \<open>saveSessionMetadata\<close>, whose rejection it does not catch. The
  session it returns is the current one after these awaits; it is modelled with no
  other handler changing the session in between.
\<close>

definition stopRecording ::
    "env \<Rightarrow> bg_state \<Rightarrow> (bg_error + RecordingSession option) \<times> bg_state" where
  "stopRecording ev s =
     (case currentSession s of
        None \<Rightarrow> (Inr None, s)
      | Some cs \<Rightarrow>
          let finished = cs\<lparr>isRecording := False, endTime := Some (dateNow ev)\<rparr>;
              s' = s\<lparr>currentSession := Some finished\<rparr>
          in case saveSessionMetadata ev s' of
               Some err \<Rightarrow> (Inl err, s')
             | None \<Rightarrow> (Inr (Some finished), s'))"

text \<open>\<^verbatim>\<open>Partial<RecordingStep>\<close> as \<open>addStep\<close> receives it: the fields its callers set.\<close>

record step_data =
  data_timestamp :: "int option"
  data_element :: "ElementInfo option"
  data_inputValue :: "string option"
  data_isSensitive :: "bool option"
  data_url :: "string option"

definition addStep ::
    "env \<Rightarrow> step_type \<Rightarrow> step_data \<Rightarrow> int \<Rightarrow> bg_state \<Rightarrow> RecordingStep option \<times> bg_state" where
  "addStep ev ty data tid s =
     (case currentSession s of
        None \<Rightarrow> (None, s)
      | Some cs \<Rightarrow>
          if \<not> isRecording cs then (None, s)
          else
            let ttl = (case tabsGet ev tid of
                         Some t \<Rightarrow> or_str (tab_title t) ''Untitled''
                       | None \<Rightarrow> ''Unknown'');
                u = (case tabsGet ev tid of
                       Some t \<Rightarrow> or_str (tab_url t) (or_str (data_url data) [])
                     | None \<Rightarrow> or_str (data_url data) []);
                sel = map_option selector (data_element data);
                shot = captureScreenshotWithHighlight ev tid sel;
                step = \<lparr> step_id = generateUniqueId ev 0 ''step_'',
                  step_timestamp = (if truthy_num (data_timestamp data)
                                    then the (data_timestamp data)
                                    else dateNow ev - startTime cs),
                  step_type = ty, tabId = tid, tabTitle = ttl, step_url = u,
                  screenshotData = shot, audioData = None,
                  element = data_element data, inputValue = data_inputValue data,
                  isSensitive = data_isSensitive data \<rparr>;
                pushed = cs\<lparr>steps := steps cs @ [step]\<rparr>;
                tracked = (if tid \<in> set (trackedTabIds pushed) then pushed
                           else pushed\<lparr>trackedTabIds := trackedTabIds pushed @ [tid]\<rparr>)
            in (Some step, s\<lparr>currentSession := Some tracked\<rparr>))"

definition addAnnotation ::
    "env \<Rightarrow> string \<Rightarrow> int \<Rightarrow> bg_state \<Rightarrow> Annotation option \<times> bg_state" where
  "addAnnotation ev txt ts s =
     (case currentSession s of
        None \<Rightarrow> (None, s)
      | Some cs \<Rightarrow>
          let annotation = \<lparr> ann_id = generateUniqueId ev 0 ''ann_'', ann_timestamp = ts,
                ann_text = txt, ann_screenshotData = None, ann_audioData = None \<rparr>
          in (Some annotation,
              s\<lparr>currentSession := Some (cs\<lparr>annotations := annotations cs @ [annotation]\<rparr>)\<rparr>))"

text \<open>
  \<^verbatim>\<open>annotations.find(a => a.id === annotationId)\<close> returns the first match, and the
  assignment to its \<open>text\<close> changes that array element in place: \<open>find_index\<close> is the
  position of the element that \<open>find\<close> returns.
\<close>

fun find_index :: "('a \<Rightarrow> bool) \<Rightarrow> 'a list \<Rightarrow> nat option" where
  "find_index P [] = None"
| "find_index P (x # xs) =
     (if P x then Some 0 else map_option Suc (find_index P xs))"

definition updateAnnotation ::
    "string \<Rightarrow> string \<Rightarrow> bg_state \<Rightarrow> Annotation option \<times> bg_state" where
  "updateAnnotation annotationId txt s =
     (case currentSession s of
        None \<Rightarrow> (None, s)
      | Some cs \<Rightarrow>
          (case find_index (\<lambda>a. ann_id a = annotationId) (annotations cs) of
             None \<Rightarrow> (None, s)
           | Some i \<Rightarrow>
               let annotation = (annotations cs ! i)\<lparr>ann_text := txt\<rparr>
               in (Some annotation,
                   s\<lparr>currentSession :=
                       Some (cs\<lparr>annotations := (annotations cs)[i := annotation]\<rparr>)\<rparr>)))"

definition deleteAnnotation :: "string \<Rightarrow> bg_state \<Rightarrow> bool \<times> bg_state" where
  "deleteAnnotation annotationId s =
     (case currentSession s of
        None \<Rightarrow> (False, s)
      | Some cs \<Rightarrow>
          (case find_index (\<lambda>a. ann_id a = annotationId) (annotations cs) of
             None \<Rightarrow> (False, s)
           | Some i \<Rightarrow>
               (True,
                s\<lparr>currentSession := Some (cs\<lparr>annotations :=
                     take i (annotations cs) @ drop (Suc i) (annotations cs)\<rparr>)\<rparr>)))"

subsection \<open>The message listener\<close>

datatype message =
    START_RECORDING string bool
  | STOP_RECORDING
  | CLICK_EVENT ElementInfo string int
  | INPUT_EVENT InputEventMessage
  | ADD_ANNOTATION string int
  | UPDATE_ANNOTATION string string
  | DELETE_ANNOTATION string
  | GET_RECORDING_STATE
  | CONTENT_SCRIPT_READY
  | OTHER_MESSAGE

datatype response =
    SessionResponse bool "RecordingSession option"
  | StepResponse bool "RecordingStep option"
  | AnnotationResponse bool "Annotation option"
  | SuccessResponse bool
  | ErrorResponse string
  | ThrownResponse bg_error
  | RECORDING_STATE bool "RecordingSession option"

text \<open>
  \<open>sender\<close> is \<^verbatim>\<open>sender.tab?.id\<close>. The result is the argument of \<open>sendResponse\<close>, or
  \<open>None\<close> on the paths that never call it: a click without a sender tab, and a stop
  whose save to storage rejects (\<open>STOP_RECORDING\<close> has no \<open>try\<close>). \<open>ThrownResponse\<close>
  is \<^verbatim>\<open>{ success: false, error: String(error) }\<close> for the error caught.
\<close>

definition onMessage ::
    "env \<Rightarrow> message \<Rightarrow> int option \<Rightarrow> bg_state \<Rightarrow> response option \<times> bg_state" where
  "onMessage ev m sender s =
     (case m of
        START_RECORDING ttl audio \<Rightarrow>
          (case startRecording ev ttl audio s of
             (Inr session, s') \<Rightarrow> (Some (SessionResponse True session), s')
           | (Inl err, s') \<Rightarrow> (Some (ThrownResponse err), s'))
      | STOP_RECORDING \<Rightarrow>
          (case stopRecording ev s of
             (Inr session, s') \<Rightarrow> (Some (SessionResponse True session), s')
           | (Inl err, s') \<Rightarrow> (None, s'))
      | CLICK_EVENT el u ts \<Rightarrow>
          if truthy_num sender then
            (case addStep ev Click
                    \<lparr> data_timestamp = Some ts, data_element = Some el, data_inputValue = None,
                      data_isSensitive = None, data_url = Some u \<rparr> (the sender) s of
               (step, s') \<Rightarrow> (Some (StepResponse True step), s'))
          else (None, s)
      | INPUT_EVENT msg \<Rightarrow>
          if truthy_num sender then
            (case addStep ev Input
                    \<lparr> data_timestamp = Some (msg_timestamp msg),
                      data_element = Some (msg_element msg),
                      data_inputValue = Some (msg_value msg),
                      data_isSensitive = Some (msg_isSensitive msg),
                      data_url = Some (msg_url msg) \<rparr> (the sender) s of
               (step, s') \<Rightarrow> (Some (StepResponse True step), s'))
          else (Some (ErrorResponse ''No tab id''), s)
      | ADD_ANNOTATION txt ts \<Rightarrow>
          (case addAnnotation ev txt ts s of
             (annotation, s') \<Rightarrow> (Some (AnnotationResponse True annotation), s'))
      | UPDATE_ANNOTATION annotationId txt \<Rightarrow>
          (case updateAnnotation annotationId txt s of
             (annotation, s') \<Rightarrow> (Some (AnnotationResponse (annotation \<noteq> None) annotation), s'))
      | DELETE_ANNOTATION annotationId \<Rightarrow>
          (case deleteAnnotation annotationId s of
             (success, s') \<Rightarrow> (Some (SuccessResponse success), s'))
      | GET_RECORDING_STATE \<Rightarrow>
          (Some (RECORDING_STATE
                   (case currentSession s of None \<Rightarrow> False | Some cs \<Rightarrow> isRecording cs)
                   (currentSession s)), s)
      | CONTENT_SCRIPT_READY \<Rightarrow>
          if truthy_num sender then
            (let s1 = s\<lparr>readyTabs := insert (the sender) (readyTabs s)\<rparr>
             in (Some (SuccessResponse True),
                 (case currentSession s1 of
                    None \<Rightarrow> s1
                  | Some cs \<Rightarrow>
                      if isRecording cs \<and> the sender \<notin> set (trackedTabIds cs)
                      then s1\<lparr>currentSession :=
                              Some (cs\<lparr>trackedTabIds := trackedTabIds cs @ [the sender]\<rparr>)\<rparr>
                      else s1)))
          else (Some (SuccessResponse True), s)
      | OTHER_MESSAGE \<Rightarrow> (Some (ErrorResponse ''Unknown message type''), s))"

subsection \<open>Tab lifecycle listeners\<close>

text \<open>
  \<^verbatim>\<open>chrome.tabs.onUpdated\<close>: the arguments are the tab id, whether
  \<^verbatim>\<open>changeInfo.status === 'complete'\<close>, and \<^verbatim>\<open>tab.url\<close>.
\<close>

definition onUpdated :: "env \<Rightarrow> int \<Rightarrow> bool \<Rightarrow> string option \<Rightarrow> bg_state \<Rightarrow> bg_state" where
  "onUpdated ev tid complete u s =
     (case currentSession s of
        None \<Rightarrow> s
      | Some cs \<Rightarrow>
          if \<not> isRecording cs then s
          else if tid \<notin> set (trackedTabIds cs) then s
          else if complete \<and> truthy_str u then
            snd (addStep ev Navigation
                   \<lparr> data_timestamp = Some (dateNow ev - startTime cs), data_element = None,
                     data_inputValue = None, data_isSensitive = None, data_url = u \<rparr> tid s)
          else s)"

text \<open>
  \<^verbatim>\<open>chrome.tabs.onCreated\<close>: the new tab joins the tracked tabs when its opener is
  tracked. The listener it registers for the tab's load only sends a message to the tab.
\<close>

definition onCreated :: "tab \<Rightarrow> bg_state \<Rightarrow> bg_state" where
  "onCreated t s =
     (case currentSession s of
        None \<Rightarrow> s
      | Some cs \<Rightarrow>
          if \<not> isRecording cs then s
          else if \<not> truthy_num (tab_id t) then s
          else if truthy_num (openerTabId t) \<and> the (openerTabId t) \<in> set (trackedTabIds cs)
          then s\<lparr>currentSession :=
                   Some (cs\<lparr>trackedTabIds := trackedTabIds cs @ [the (tab_id t)]\<rparr>)\<rparr>
          else s)"

text \<open>
  \<^verbatim>\<open>chrome.tabs.onRemoved\<close>: \<open>indexOf\<close> and \<open>splice(index, 1)\<close> remove the first
  occurrence, which is \<open>remove1\<close>. \<open>stopRecording()\<close> is called without \<open>await\<close>; the
  assignments to \<open>isRecording\<close> and \<open>endTime\<close> come before its first suspension.
\<close>

definition onRemoved :: "env \<Rightarrow> int \<Rightarrow> bg_state \<Rightarrow> bg_state" where
  "onRemoved ev tid s =
     (let s1 = s\<lparr>readyTabs := readyTabs s - {tid}\<rparr>
      in (case currentSession s1 of
            None \<Rightarrow> s1
          | Some cs \<Rightarrow>
              if isRecording cs \<and> tid \<in> set (trackedTabIds cs) then
                (let cs' = cs\<lparr>trackedTabIds := remove1 tid (trackedTabIds cs)\<rparr>;
                     s2 = s1\<lparr>currentSession := Some cs'\<rparr>
                 in if length (trackedTabIds cs') = 0 then snd (stopRecording ev s2) else s2)
              else s1))"

section \<open>Selector synthesizer (contentScript/selectorGenerator.ts)\<close>

text \<open>
  An element is what the synthesizer reads of a DOM node: its tag name, its \<open>id\<close> (empty
  when it has none), its attributes, its class list and its parent. \<open>node\<close> is the
  node's identity, so that two nodes with equal markup under the same parent remain
  different elements, as they are for \<open>===\<close>.

  What the page's browser answers is the record \<open>document\<close>: \<open>body\<close> and
  \<open>documentElement\<close>, the elements in tree order, the children of an element,
  \<^verbatim>\<open>document.querySelectorAll\<close>, \<^verbatim>\<open>element.querySelectorAll\<close>, \<^verbatim>\<open>CSS.escape\<close> and
  \<^verbatim>\<open>String.prototype.toLowerCase\<close>, whose case tables are the platform's. A query
  returns the matching elements or throws a \<open>SyntaxError\<close> for a selector it cannot
  parse; the exception is the \<open>Inl\<close> of the result.
\<close>

datatype dom_error = SyntaxError

datatype element = Element
  (node: nat)
  (tagName: string)
  (elem_id: string)
  (attrs: "(string \<times> string) list")
  (classList: "string list")
  (parentElement: "element option")

record document =
  body :: element
  documentElement :: element
  elements :: "element list"
  children :: "element \<Rightarrow> element list"
  querySelectorAll :: "string \<Rightarrow> dom_error + element list"
  elementQuerySelectorAll :: "element \<Rightarrow> string \<Rightarrow> dom_error + element list"
  CSS_escape :: "string \<Rightarrow> string"
  toLowerCase :: "string \<Rightarrow> string"

subsection \<open>Strings\<close>

definition is_upper :: "char \<Rightarrow> bool" where
  "is_upper c = (65 \<le> (of_char c :: nat) \<and> (of_char c :: nat) \<le> 90)"

definition is_lower :: "char \<Rightarrow> bool" where
  "is_lower c = (97 \<le> (of_char c :: nat) \<and> (of_char c :: nat) \<le> 122)"

definition is_digit :: "char \<Rightarrow> bool" where
  "is_digit c = (48 \<le> (of_char c :: nat) \<and> (of_char c :: nat) \<le> 57)"

definition is_letter :: "char \<Rightarrow> bool" where
  "is_letter c = (is_upper c \<or> is_lower c)"

text \<open>
  Lowering the letters \<open>A\<close> to \<open>Z\<close> and nothing else. This is what the flag \<open>i\<close> of a
  regular expression amounts to for a pattern of lower-case ASCII letters, and it is what
  \<open>toLowerCase\<close> does to a string of ASCII characters.
\<close>

definition lower_char :: "char \<Rightarrow> char" where
  "lower_char c = (if is_upper c then char_of ((of_char c :: nat) + 32) else c)"

definition ascii_lower :: "string \<Rightarrow> string" where
  "ascii_lower s = map lower_char s"

text \<open>\<^verbatim>\<open>s.includes(sub)\<close>: \<open>sub\<close> occurs in \<open>s\<close> as a contiguous run.\<close>

fun str_includes :: "string \<Rightarrow> string \<Rightarrow> bool" where
  "str_includes [] sub = (sub = [])"
| "str_includes (c # cs) sub = (prefix sub (c # cs) \<or> str_includes cs sub)"

text \<open>\<^verbatim>\<open>parts.join(sep)\<close>.\<close>

fun join :: "string \<Rightarrow> string list \<Rightarrow> string" where
  "join sep [] = []"
| "join sep [x] = x"
| "join sep (x # y # ys) = x @ sep @ join sep (y # ys)"

text \<open>The decimal digits of a number, as a template literal renders it.\<close>

function dec :: "nat \<Rightarrow> string" where
  "dec n = (if n < 10 then [char_of (48 + n)] else dec (n div 10) @ [char_of (48 + n mod 10)])"
  by pat_completeness auto
termination
  by (relation "measure id") auto

text \<open>\<^verbatim>\<open>xs.indexOf(x)\<close>, \<open>-1\<close> when \<open>x\<close> is not in \<open>xs\<close>.\<close>

fun indexOf :: "'a list \<Rightarrow> 'a \<Rightarrow> int" where
  "indexOf [] x = - 1"
| "indexOf (y # ys) x =
     (if y = x then 0 else (let r = indexOf ys x in if r < 0 then - 1 else r + 1))"

definition dquote :: string where
  "dquote = [CHR 0x22]"

subsection \<open>Stable attributes and classes\<close>

definition STABLE_ATTRIBUTES :: "string list" where
  "STABLE_ATTRIBUTES =
     [''data-testid'', ''data-cy'', ''data-test'', ''data-qa'', ''name'', ''aria-label'', ''role'']"

text \<open>
  \<open>UNSTABLE_CLASS_PATTERNS\<close>, one predicate per regular expression, in the order of the
  source: \<^verbatim>\<open>/^css-/\<close>, \<^verbatim>\<open>/^sc-/\<close>, \<^verbatim>\<open>/^emotion-/\<close>, \<^verbatim>\<open>/^_[a-z0-9]+$/i\<close>,
  \<^verbatim>\<open>/^[a-z]{1,2}[0-9]+$/i\<close>, \<^verbatim>\<open>/^jsx-/\<close>, \<^verbatim>\<open>/--/\<close>.
\<close>

definition css_modules_class :: "string \<Rightarrow> bool" where
  "css_modules_class s =
     (case s of
        [] \<Rightarrow> False
      | c # rest \<Rightarrow> c = CHR ''_'' \<and> rest \<noteq> [] \<and> list_all (\<lambda>x. is_letter x \<or> is_digit x) rest)"

definition digits1 :: "string \<Rightarrow> bool" where
  "digits1 s = (s \<noteq> [] \<and> list_all is_digit s)"

definition minified_class :: "string \<Rightarrow> bool" where
  "minified_class s =
     (case s of
        [] \<Rightarrow> False
      | a # rest \<Rightarrow>
          is_letter a \<and>
          (digits1 rest \<or>
           (case rest of [] \<Rightarrow> False | b # rest' \<Rightarrow> is_letter b \<and> digits1 rest')))"

definition UNSTABLE_CLASS_PATTERNS :: "(string \<Rightarrow> bool) list" where
  "UNSTABLE_CLASS_PATTERNS =
     [prefix ''css-'', prefix ''sc-'', prefix ''emotion-'', css_modules_class, minified_class,
      prefix ''jsx-'', (\<lambda>s. str_includes s ''--'')]"

definition isStableClass :: "string \<Rightarrow> bool" where
  "isStableClass cls = (\<not> list_ex (\<lambda>pattern. pattern cls) UNSTABLE_CLASS_PATTERNS)"

definition getStableClasses :: "element \<Rightarrow> string list" where
  "getStableClasses e = filter isStableClass (classList e)"

definition getAttribute :: "element \<Rightarrow> string \<Rightarrow> string option" where
  "getAttribute e a = map_of (attrs e) a"

subsection \<open>Uniqueness checks\<close>

text \<open>\<open>isUniqueId\<close> queries without a \<open>try\<close>; \<open>isUnique\<close> catches and answers \<open>false\<close>.\<close>

definition isUniqueId :: "document \<Rightarrow> element \<Rightarrow> string \<Rightarrow> dom_error + bool" where
  "isUniqueId d e i =
     (case querySelectorAll d (''#'' @ CSS_escape d i) of
        Inl err \<Rightarrow> Inl err
      | Inr found \<Rightarrow> Inr (length found = 1))"

definition isUnique :: "document \<Rightarrow> string \<Rightarrow> bool" where
  "isUnique d sel =
     (case querySelectorAll d sel of
        Inl err \<Rightarrow> False
      | Inr found \<Rightarrow> length found = 1)"

definition getNthOfTypePosition :: "document \<Rightarrow> element \<Rightarrow> int" where
  "getNthOfTypePosition d e =
     (case parentElement e of
        None \<Rightarrow> 1
      | Some p \<Rightarrow>
          (let siblings = filter (\<lambda>el. tagName el = tagName e) (children d p)
           in indexOf siblings e + 1))"

subsection \<open>The tiers\<close>

definition tryIdSelector :: "document \<Rightarrow> element \<Rightarrow> dom_error + string option" where
  "tryIdSelector d e =
     (if elem_id e \<noteq> [] then
        (case isUniqueId d e (elem_id e) of
           Inl err \<Rightarrow> Inl err
         | Inr unique \<Rightarrow>
             if unique then Inr (Some (''#'' @ CSS_escape d (elem_id e))) else Inr None)
      else Inr None)"

fun tryAttributeSelector_from :: "document \<Rightarrow> element \<Rightarrow> string list \<Rightarrow> string option" where
  "tryAttributeSelector_from d e [] = None"
| "tryAttributeSelector_from d e (attr # rest) =
     (case getAttribute e attr of
        None \<Rightarrow> tryAttributeSelector_from d e rest
      | Some v \<Rightarrow>
          if v \<noteq> [] \<and> isUnique d (''['' @ attr @ ''='' @ dquote @ CSS_escape d v @ dquote @ '']'')
          then Some (''['' @ attr @ ''='' @ dquote @ CSS_escape d v @ dquote @ '']'')
          else tryAttributeSelector_from d e rest)"

definition tryAttributeSelector :: "document \<Rightarrow> element \<Rightarrow> string option" where
  "tryAttributeSelector d e = tryAttributeSelector_from d e STABLE_ATTRIBUTES"

fun trySingleClass :: "document \<Rightarrow> string \<Rightarrow> string list \<Rightarrow> string option" where
  "trySingleClass d tn [] = None"
| "trySingleClass d tn (cls # rest) =
     (if isUnique d (tn @ ''.'' @ CSS_escape d cls) then Some (tn @ ''.'' @ CSS_escape d cls)
      else trySingleClass d tn rest)"

definition tryClassSelector :: "document \<Rightarrow> element \<Rightarrow> string option" where
  "tryClassSelector d e =
     (let tn = toLowerCase d (tagName e);
          stableClasses = getStableClasses e
      in case trySingleClass d tn stableClasses of
           Some sel \<Rightarrow> Some sel
         | None \<Rightarrow>
             if length stableClasses \<ge> 2 \<and>
                isUnique d (tn @ concat (map (\<lambda>c. ''.'' @ CSS_escape d c) stableClasses))
             then Some (tn @ concat (map (\<lambda>c. ''.'' @ CSS_escape d c) stableClasses))
             else None)"

text \<open>
  The loop of \<open>findNearestIdAncestor\<close>: \<open>current\<close> walks up from the parent, \<open>path\<close>
  collects the elements passed, nearest first.
\<close>

fun findNearestIdAncestor_from ::
    "document \<Rightarrow> element option \<Rightarrow> element list \<Rightarrow> dom_error + (element \<times> element list) option" where
  "findNearestIdAncestor_from d None path = Inr None"
| "findNearestIdAncestor_from d (Some (Element n t i a cl p)) path =
     (let current = Element n t i a cl p
      in if current = body d \<or> current = documentElement d then Inr None
         else if i \<noteq> [] then
           (case isUniqueId d current i of
              Inl err \<Rightarrow> Inl err
            | Inr unique \<Rightarrow>
                if unique then Inr (Some (current, rev path))
                else findNearestIdAncestor_from d p (path @ [current]))
         else findNearestIdAncestor_from d p (path @ [current]))"

definition findNearestIdAncestor ::
    "document \<Rightarrow> element \<Rightarrow> dom_error + (element \<times> element list) option" where
  "findNearestIdAncestor d e = findNearestIdAncestor_from d (parentElement e) []"

definition getSimpleSelector :: "document \<Rightarrow> element \<Rightarrow> dom_error + string" where
  "getSimpleSelector d e =
     (let tn = toLowerCase d (tagName e);
          stableClasses = getStableClasses e;
          nth = tn @ '':nth-of-type('' @ dec (nat (getNthOfTypePosition d e)) @ '')''
      in case stableClasses of
           [] \<Rightarrow> Inr nth
         | cls # rest \<Rightarrow>
             (let sel = tn @ ''.'' @ CSS_escape d cls
              in case parentElement e of
                   None \<Rightarrow> Inr nth
                 | Some p \<Rightarrow>
                     (case elementQuerySelectorAll d p ('':scope > '' @ sel) of
                        Inl err \<Rightarrow> Inl err
                      | Inr matchingSiblings \<Rightarrow>
                          if length matchingSiblings = 1 then Inr sel else Inr nth)))"

text \<open>\<open>getSimpleSelector\<close> over a list, left to right; the first exception ends it.\<close>

fun simpleSelectors :: "document \<Rightarrow> element list \<Rightarrow> dom_error + string list" where
  "simpleSelectors d [] = Inr []"
| "simpleSelectors d (e # es) =
     (case getSimpleSelector d e of
        Inl err \<Rightarrow> Inl err
      | Inr sel \<Rightarrow>
          (case simpleSelectors d es of
             Inl err \<Rightarrow> Inl err
           | Inr sels \<Rightarrow> Inr (sel # sels)))"

definition buildPathSelector ::
    "document \<Rightarrow> element \<Rightarrow> element list \<Rightarrow> element \<Rightarrow> dom_error + string" where
  "buildPathSelector d ancestor path target =
     (case simpleSelectors d (path @ [target]) of
        Inl err \<Rightarrow> Inl err
      | Inr sels \<Rightarrow> Inr (join '' > '' ((''#'' @ CSS_escape d (elem_id ancestor)) # sels)))"

fun buildFullPath_from ::
    "document \<Rightarrow> element option \<Rightarrow> string list \<Rightarrow> dom_error + string list" where
  "buildFullPath_from d None path = Inr path"
| "buildFullPath_from d (Some (Element n t i a cl p)) path =
     (let current = Element n t i a cl p
      in if current = body d \<or> current = documentElement d then Inr path
         else (case getSimpleSelector d current of
                 Inl err \<Rightarrow> Inl err
               | Inr sel \<Rightarrow> buildFullPath_from d p (sel # path)))"

definition buildFullPathSelector :: "document \<Rightarrow> element \<Rightarrow> dom_error + string" where
  "buildFullPathSelector d e =
     (case buildFullPath_from d (Some e) [] of
        Inl err \<Rightarrow> Inl err
      | Inr path \<Rightarrow> Inr (join '' > '' path))"

definition generateSelector :: "document \<Rightarrow> element \<Rightarrow> dom_error + string" where
  "generateSelector d e =
     (case tryIdSelector d e of
        Inl err \<Rightarrow> Inl err
      | Inr (Some idSelector) \<Rightarrow> Inr idSelector
      | Inr None \<Rightarrow>
          (case tryAttributeSelector d e of
             Some attrSelector \<Rightarrow> Inr attrSelector
           | None \<Rightarrow>
               (case tryClassSelector d e of
                  Some classSelector \<Rightarrow> Inr classSelector
                | None \<Rightarrow>
                    (case findNearestIdAncestor d e of
                       Inl err \<Rightarrow> Inl err
                     | Inr None \<Rightarrow> buildFullPathSelector d e
                     | Inr (Some (ancestor, path)) \<Rightarrow>
                         (case buildPathSelector d ancestor path e of
                            Inl err \<Rightarrow> Inl err
                          | Inr pathSelector \<Rightarrow>
                              if isUnique d pathSelector then Inr pathSelector
                              else buildFullPathSelector d e)))))"

text \<open>
  The browser's answer to an id query is the document's elements carrying that id; this
  is what \<^verbatim>\<open>#\<close> followed by the escaped id selects. The predicate says so for the
  ids that occur in the document.
\<close>

definition id_queries_agree :: "document \<Rightarrow> bool" where
  "id_queries_agree d =
     list_all (\<lambda>x. elem_id x = [] \<or>
                 querySelectorAll d (''#'' @ CSS_escape d (elem_id x))
                   = Inr (filter (\<lambda>y. elem_id y = elem_id x) (elements d)))
       (elements d)"

section \<open>Sensitive fields (utils/sensitiveFields.ts)\<close>

text \<open>
  A form field is what the detector and the classifier read of an element besides its
  value: which interface it implements, the DOM element itself, the properties \<open>type\<close>,
  \<open>name\<close>, \<open>autocomplete\<close> and \<open>placeholder\<close>, the text of the label found by
  \<^verbatim>\<open>document.querySelector(`label[for="${element.id}"]`)\<close> (a query built without
  escaping, which throws when the id breaks the selector), the text of the enclosing
  \<open>label\<close>, the computed \<^verbatim>\<open>-webkit-text-security\<close>, whether the element lies inside
  \<^verbatim>\<open>[data-how-to-recorder-ignore]\<close>, and the label \<open>getFieldLabel\<close> extracts (it runs
  the same unescaped query).
\<close>

datatype field_kind = HTMLInputElement | HTMLTextAreaElement | HTMLSelectElement | OtherElement

record field =
  el_kind :: field_kind
  el_node :: element
  el_type :: string
  el_name :: string
  el_autocomplete :: string
  el_placeholder :: string
  el_labelFor :: "dom_error + string option"
  el_closestLabel :: "string option"
  el_textSecurity :: string
  el_ignored :: bool
  el_fieldLabel :: "dom_error + string"

text \<open>
  The regular expressions of the two pattern lists are case-insensitive searches for a
  word, or for two words with an optional \<open>_\<close> or \<open>-\<close> between them
  (\<^verbatim>\<open>/api[_-]?key/i\<close>). The classifier takes the document for its \<open>toLowerCase\<close>.
\<close>

datatype pattern = Lit string | Sep string string

fun pattern_test :: "pattern \<Rightarrow> string \<Rightarrow> bool" where
  "pattern_test (Lit a) s = str_includes (ascii_lower s) a"
| "pattern_test (Sep a b) s =
     (str_includes (ascii_lower s) (a @ b) \<or> str_includes (ascii_lower s) (a @ ''_'' @ b) \<or>
      str_includes (ascii_lower s) (a @ ''-'' @ b))"

definition SENSITIVE_INPUT_TYPES :: "string list" where
  "SENSITIVE_INPUT_TYPES = [''password'']"

definition SENSITIVE_AUTOCOMPLETE_VALUES :: "string list" where
  "SENSITIVE_AUTOCOMPLETE_VALUES =
     [''current-password'', ''new-password'', ''cc-number'', ''cc-csc'', ''cc-exp'',
      ''cc-exp-month'', ''cc-exp-year'', ''cc-name'', ''cc-type'']"

definition SENSITIVE_NAME_PATTERNS :: "pattern list" where
  "SENSITIVE_NAME_PATTERNS =
     [Lit ''password'', Lit ''passwd'', Lit ''secret'', Lit ''token'', Sep ''api'' ''key'',
      Lit ''ssn'', Sep ''social'' ''security'', Lit ''cvv'', Lit ''cvc'', Sep ''card'' ''number'',
      Sep ''credit'' ''card'', Sep ''cc'' ''num'', Sep ''account'' ''number'',
      Sep ''routing'' ''number'', Lit ''pin'', Sep ''security'' ''code'', Lit ''otp'',
      Sep ''two'' ''factor'', Lit ''2fa'', Sep ''auth'' ''code'', Sep ''verification'' ''code'']"

definition SENSITIVE_PLACEHOLDER_PATTERNS :: "pattern list" where
  "SENSITIVE_PLACEHOLDER_PATTERNS =
     [Lit ''password'', Lit ''secret'', Lit ''ssn'', Lit ''social security'', Lit ''credit card'',
      Lit ''card number'', Lit ''cvv'', Lit ''cvc'', Lit ''security code'',
      Lit ''verification code'']"

definition isPasswordType :: "document \<Rightarrow> field \<Rightarrow> bool" where
  "isPasswordType d f = (toLowerCase d (el_type f) \<in> set SENSITIVE_INPUT_TYPES)"

definition hasSensitiveAutocomplete :: "document \<Rightarrow> field \<Rightarrow> bool" where
  "hasSensitiveAutocomplete d f =
     (let autocomplete = toLowerCase d (el_autocomplete f)
      in list_ex (\<lambda>v. autocomplete = v \<or> str_includes autocomplete v)
           SENSITIVE_AUTOCOMPLETE_VALUES)"

definition hasSensitiveNameOrId :: "document \<Rightarrow> field \<Rightarrow> bool" where
  "hasSensitiveNameOrId d f =
     (let nm = toLowerCase d (el_name f);
          i = toLowerCase d (elem_id (el_node f))
      in list_ex (\<lambda>pat. pattern_test pat nm \<or> pattern_test pat i) SENSITIVE_NAME_PATTERNS)"

definition sensitive_text :: "string \<Rightarrow> bool" where
  "sensitive_text s = list_ex (\<lambda>pat. pattern_test pat s) SENSITIVE_PLACEHOLDER_PATTERNS"

definition hasSensitivePlaceholder :: "document \<Rightarrow> field \<Rightarrow> bool" where
  "hasSensitivePlaceholder d f = sensitive_text (toLowerCase d (el_placeholder f))"

definition hasSensitiveLabel :: "document \<Rightarrow> field \<Rightarrow> dom_error + bool" where
  "hasSensitiveLabel d f =
     (case (if elem_id (el_node f) \<noteq> [] then
              (case el_labelFor f of
                 Inl err \<Rightarrow> Inl err
               | Inr None \<Rightarrow> Inr False
               | Inr (Some labelText) \<Rightarrow> Inr (sensitive_text (toLowerCase d labelText)))
            else Inr False) of
        Inl err \<Rightarrow> Inl err
      | Inr explicit \<Rightarrow>
          if explicit then Inr True
          else if (case el_closestLabel f of
                     None \<Rightarrow> False
                   | Some labelText \<Rightarrow> sensitive_text (toLowerCase d labelText))
          then Inr True
          else Inr (sensitive_text
                      (toLowerCase d (case getAttribute (el_node f) ''aria-label'' of
                                      None \<Rightarrow> []
                                    | Some a \<Rightarrow> a))))"

definition hasTextMaskingStyle :: "field \<Rightarrow> bool" where
  "hasTextMaskingStyle f =
     (el_textSecurity f = ''disc'' \<or> el_textSecurity f = ''circle'' \<or>
      el_textSecurity f = ''square'')"

definition isSensitiveField :: "document \<Rightarrow> field \<Rightarrow> dom_error + bool" where
  "isSensitiveField d f =
     (if el_kind f \<noteq> HTMLInputElement \<and> el_kind f \<noteq> HTMLTextAreaElement then Inr False
      else if el_kind f = HTMLInputElement \<and> isPasswordType d f then Inr True
      else if hasSensitiveAutocomplete d f then Inr True
      else if hasSensitiveNameOrId d f then Inr True
      else if hasSensitivePlaceholder d f then Inr True
      else (case hasSensitiveLabel d f of
              Inl err \<Rightarrow> Inl err
            | Inr labelled \<Rightarrow>
                if labelled then Inr True
                else Inr (el_kind f = HTMLInputElement \<and> hasTextMaskingStyle f)))"

definition maskValue :: "string \<Rightarrow> string" where
  "maskValue v = ''********''"

text \<open>\<open>getRecordableValue(element)\<close>; the last argument is \<open>element.value\<close>.\<close>

definition getRecordableValue ::
    "document \<Rightarrow> field \<Rightarrow> string \<Rightarrow> dom_error + (string \<times> bool)" where
  "getRecordableValue d f v =
     (case isSensitiveField d f of
        Inl err \<Rightarrow> Inl err
      | Inr sensitive \<Rightarrow> Inr (if sensitive then maskValue v else v, sensitive))"

section \<open>Input detector (contentScript/inputHandler.ts) and content script (contentScript/index.ts)\<close>

text \<open>
  A field is referred to by a number, the identity the two \<open>Map\<close>s of the detector are
  keyed by. The page gives the field behind each reference, the document and
  \<^verbatim>\<open>window.location.href\<close>.

  \<open>page_state\<close> is everything that changes in one page: the module variables of
  \<^verbatim>\<open>index.ts\<close> (\<open>cs_isRecording\<close>, \<open>cs_recordingStartTime\<close>) and of \<^verbatim>\<open>inputHandler.ts\<close>
  (\<open>recordingStartTime\<close>, \<open>inputCallback\<close>, \<open>debounceTimers\<close>, \<open>lastRecordedValues\<close>),
  whether the three listeners are registered, and the page's side: the clock, the
  timeouts that are scheduled (id, due time, target of the callback), the next timer id,
  the current \<open>value\<close> of every field, and the calls of the callback: the field
  \<open>recordInputChange\<close> ran for and the message it passed.
  \<open>debounceTimers\<close> is a list of pairs in insertion order, the order in which a \<open>Map\<close> is
  iterated.
\<close>

type_synonym field_ref = nat

record page =
  field_of :: "field_ref \<Rightarrow> field"
  doc :: document
  href :: string

datatype callback = SendToBackground

record page_state =
  cs_isRecording :: bool
  cs_recordingStartTime :: "int option"
  recordingStartTime :: "int option"
  inputCallback :: "callback option"
  debounceTimers :: "(field_ref \<times> nat) list"
  lastRecordedValues :: "field_ref \<rightharpoonup> string"
  listening :: bool
  now :: int
  timeouts :: "(nat \<times> int \<times> field_ref) list"
  nextTimer :: nat
  fieldValue :: "field_ref \<Rightarrow> string"
  calls :: "(field_ref \<times> InputEventMessage) list"

text \<open>The messages sent, and the messages sent for one field.\<close>

definition sent :: "page_state \<Rightarrow> InputEventMessage list" where
  "sent s = map snd (calls s)"

definition sent_for :: "field_ref \<Rightarrow> page_state \<Rightarrow> InputEventMessage list" where
  "sent_for e s = map snd (filter (\<lambda>c. fst c = e) (calls s))"

definition INPUT_DEBOUNCE_MS :: int where
  "INPUT_DEBOUNCE_MS = 1000"

definition setTimeout :: "field_ref \<Rightarrow> page_state \<Rightarrow> nat \<times> page_state" where
  "setTimeout e s =
     (nextTimer s,
      s\<lparr>timeouts := timeouts s @ [(nextTimer s, now s + INPUT_DEBOUNCE_MS, e)],
        nextTimer := nextTimer s + 1\<rparr>)"

definition clearTimeout :: "nat \<Rightarrow> page_state \<Rightarrow> page_state" where
  "clearTimeout t s = s\<lparr>timeouts := filter (\<lambda>x. fst x \<noteq> t) (timeouts s)\<rparr>"

text \<open>
  \<open>getElementInfo\<close>: the selector is synthesized first, then the label is extracted;
  either may throw.
\<close>

definition getElementInfo :: "page \<Rightarrow> field_ref \<Rightarrow> dom_error + ElementInfo" where
  "getElementInfo p e =
     (let f = field_of p e
      in case generateSelector (doc p) (el_node f) of
           Inl err \<Rightarrow> Inl err
         | Inr sel \<Rightarrow>
             (case el_fieldLabel f of
                Inl err \<Rightarrow> Inl err
              | Inr label \<Rightarrow>
                  Inr \<lparr> tag = toLowerCase (doc p) (tagName (el_node f)),
                        info_text = take 100 label,
                        selector = sel,
                        info_type = (if el_kind f = HTMLInputElement then Some (el_type f)
                                     else None),
                        info_name = (if el_name f \<noteq> [] then Some (el_name f) else None),
                        info_id = (if elem_id (el_node f) \<noteq> [] then Some (elem_id (el_node f))
                                   else None),
                        className = None,
                        ariaLabel = (case getAttribute (el_node f) ''aria-label'' of
                                       None \<Rightarrow> None
                                     | Some a \<Rightarrow> if a \<noteq> [] then Some a else None) \<rparr>))"

text \<open>
  The handlers return the exception that ended them, if any, and the state they leave;
  what was assigned before a \<open>throw\<close> stays assigned.
\<close>

definition recordInputChange ::
    "page \<Rightarrow> field_ref \<Rightarrow> page_state \<Rightarrow> dom_error option \<times> page_state" where
  "recordInputChange p e s =
     (if recordingStartTime s = None \<or> inputCallback s = None then (None, s)
      else
        (case (if el_kind (field_of p e) = HTMLSelectElement then Inr (fieldValue s e, False)
               else getRecordableValue (doc p) (field_of p e) (fieldValue s e)) of
           Inl err \<Rightarrow> (Some err, s)
         | Inr (v, sensitive) \<Rightarrow>
             if lastRecordedValues s e = Some v then (None, s)
             else
               (let s1 = s\<lparr>lastRecordedValues := (lastRecordedValues s)(e \<mapsto> v)\<rparr>
                in case getElementInfo p e of
                     Inl err \<Rightarrow> (Some err, s1)
                   | Inr elementInfo \<Rightarrow>
                       (None,
                        s1\<lparr>calls := calls s1 @
                             [(e, \<lparr> msg_element = elementInfo, msg_value = v,
                                msg_isSensitive = sensitive, msg_url = href p,
                                msg_timestamp = now s1 - the (recordingStartTime s1) \<rparr>)]\<rparr>))))"

text \<open>The callback given to \<open>setTimeout\<close> in \<open>handleInputEvent\<close>.\<close>

definition timer_fired ::
    "page \<Rightarrow> field_ref \<Rightarrow> page_state \<Rightarrow> dom_error option \<times> page_state" where
  "timer_fired p e s =
     (case recordInputChange p e s of
        (Some err, s1) \<Rightarrow> (Some err, s1)
      | (None, s1) \<Rightarrow> (None, s1\<lparr>debounceTimers := AList.delete e (debounceTimers s1)\<rparr>))"

definition handleInputEvent ::
    "page \<Rightarrow> field_ref \<Rightarrow> page_state \<Rightarrow> dom_error option \<times> page_state" where
  "handleInputEvent p e s =
     (let f = field_of p e
      in if recordingStartTime s = None then (None, s)
         else if el_kind f = OtherElement then (None, s)
         else if el_ignored f then (None, s)
         else if el_kind f = HTMLInputElement \<and>
                 toLowerCase (doc p) (el_type f) \<in> set [''hidden'', ''submit'', ''button'', ''reset'', ''image'']
         then (None, s)
         else
           (let s1 = (case map_of (debounceTimers s) e of
                        None \<Rightarrow> s
                      | Some existingTimer \<Rightarrow>
                          if existingTimer \<noteq> 0 then clearTimeout existingTimer s else s)
            in if el_kind f = HTMLSelectElement \<or>
                  (el_kind f = HTMLInputElement \<and>
                   toLowerCase (doc p) (el_type f) \<in> set [''checkbox'', ''radio''])
               then recordInputChange p e s1
               else (case setTimeout e s1 of
                       (timer, s2) \<Rightarrow>
                         (None, s2\<lparr>debounceTimers := AList.update e timer (debounceTimers s2)\<rparr>))))"

definition handleBlurEvent ::
    "page \<Rightarrow> field_ref \<Rightarrow> page_state \<Rightarrow> dom_error option \<times> page_state" where
  "handleBlurEvent p e s =
     (let f = field_of p e
      in if recordingStartTime s = None then (None, s)
         else if el_kind f \<noteq> HTMLInputElement \<and> el_kind f \<noteq> HTMLTextAreaElement then (None, s)
         else
           (let s1 = (case map_of (debounceTimers s) e of
                        None \<Rightarrow> s
                      | Some existingTimer \<Rightarrow>
                          if existingTimer \<noteq> 0
                          then (clearTimeout existingTimer s)
                                 \<lparr>debounceTimers := AList.delete e (debounceTimers s)\<rparr>
                          else s)
            in recordInputChange p e s1))"

definition startInputTracking :: "int \<Rightarrow> callback \<Rightarrow> page_state \<Rightarrow> page_state" where
  "startInputTracking start cb s =
     s\<lparr>recordingStartTime := Some start, inputCallback := Some cb,
       debounceTimers := [], lastRecordedValues := Map.empty, listening := True\<rparr>"

definition stopInputTracking :: "page_state \<Rightarrow> page_state" where
  "stopInputTracking s =
     (fold clearTimeout (map snd (debounceTimers s)) (s\<lparr>listening := False\<rparr>))
       \<lparr>debounceTimers := [], lastRecordedValues := Map.empty,
        recordingStartTime := None, inputCallback := None\<rparr>"

text \<open>The loop of \<open>flushPendingInputs\<close> over the entries of \<open>debounceTimers\<close>.\<close>

fun flush_entries ::
    "page \<Rightarrow> (field_ref \<times> nat) list \<Rightarrow> page_state \<Rightarrow> dom_error option \<times> page_state" where
  "flush_entries p [] s = (None, s)"
| "flush_entries p ((e, timer) # rest) s =
     (let s1 = clearTimeout timer s
      in if el_kind (field_of p e) = HTMLInputElement \<or> el_kind (field_of p e) = HTMLTextAreaElement
         then (case recordInputChange p e s1 of
                 (Some err, s2) \<Rightarrow> (Some err, s2)
               | (None, s2) \<Rightarrow> flush_entries p rest s2)
         else flush_entries p rest s1)"

definition flushPendingInputs :: "page \<Rightarrow> page_state \<Rightarrow> dom_error option \<times> page_state" where
  "flushPendingInputs p s =
     (case flush_entries p (debounceTimers s) s of
        (Some err, s1) \<Rightarrow> (Some err, s1)
      | (None, s1) \<Rightarrow> (None, s1\<lparr>debounceTimers := []\<rparr>))"

subsection \<open>The content script's start and stop\<close>

text \<open>
  \<open>startRecording\<close> and \<open>stopRecording\<close> of \<^verbatim>\<open>index.ts\<close>; the click tracker and the
  highlighter they also start and stop keep their own state and are not part of this
  model.
\<close>

definition cs_startRecording :: "int option \<Rightarrow> page_state \<Rightarrow> page_state" where
  "cs_startRecording start s =
     (if cs_isRecording s then s
      else
        (let t = (if truthy_num start then the start else now s)
         in startInputTracking t SendToBackground
              (s\<lparr>cs_recordingStartTime := Some t, cs_isRecording := True\<rparr>)))"

definition cs_stopRecording :: "page \<Rightarrow> page_state \<Rightarrow> dom_error option \<times> page_state" where
  "cs_stopRecording p s =
     (if \<not> cs_isRecording s then (None, s)
      else
        (case flushPendingInputs p s of
           (Some err, s1) \<Rightarrow> (Some err, s1)
         | (None, s1) \<Rightarrow>
             (None, (stopInputTracking s1)\<lparr>cs_isRecording := False,
                                            cs_recordingStartTime := None\<rparr>)))"

subsection \<open>Events and the passing of time\<close>

text \<open>
  The user edits field \<open>e\<close> so that its value is \<open>v\<close> and the browser dispatches
  \<open>input\<close>; the field loses focus and the browser dispatches \<open>blur\<close>. An exception that
  leaves a listener or a timer callback is reported by the browser and goes no further.
\<close>

definition input_event :: "page \<Rightarrow> field_ref \<Rightarrow> string \<Rightarrow> page_state \<Rightarrow> page_state" where
  "input_event p e v s =
     (let s1 = s\<lparr>fieldValue := (fieldValue s)(e := v)\<rparr>
      in if listening s1 then snd (handleInputEvent p e s1) else s1)"

definition blur_event :: "page \<Rightarrow> field_ref \<Rightarrow> page_state \<Rightarrow> page_state" where
  "blur_event p e s = (if listening s then snd (handleBlurEvent p e s) else s)"

text \<open>
  Of the timeouts due by time \<open>t\<close>, the one that runs next: the earliest due, and among
  equals the one scheduled first.
\<close>

fun earliest :: "(nat \<times> int \<times> field_ref) list \<Rightarrow> (nat \<times> int \<times> field_ref) option" where
  "earliest [] = None"
| "earliest (x # xs) =
     (case earliest xs of
        None \<Rightarrow> Some x
      | Some y \<Rightarrow> if fst (snd x) \<le> fst (snd y) then Some x else Some y)"

definition next_due :: "int \<Rightarrow> (nat \<times> int \<times> field_ref) list \<Rightarrow> (nat \<times> int \<times> field_ref) option" where
  "next_due t ts = earliest (filter (\<lambda>x. fst (snd x) \<le> t) ts)"

text \<open>
  Time passes until \<open>t\<close>: every timeout due by then runs, each at its due time, and is
  removed from the scheduled ones as it starts.
\<close>

function run_until :: "page \<Rightarrow> int \<Rightarrow> page_state \<Rightarrow> page_state" where
  "run_until p t s =
     (case next_due t (timeouts s) of
        None \<Rightarrow> s\<lparr>now := max (now s) t\<rparr>
      | Some (i, due, e) \<Rightarrow>
          run_until p t
            (snd (timer_fired p e
                    (s\<lparr>now := max (now s) due,
                      timeouts := filter (\<lambda>x. fst x \<noteq> i) (timeouts s)\<rparr>))))"
  by pat_completeness auto
termination
proof (relation "measure (\<lambda>(p, t, s). length (timeouts s))")
  show "wf (measure (\<lambda>(p, t, s). length (timeouts s)))"
    by simp
next
  fix p :: page and t :: int and s :: page_state and x :: "nat \<times> int \<times> field_ref"
    and i :: nat and y :: "int \<times> field_ref" and due :: int and e :: field_ref
  assume nd: "next_due t (timeouts s) = Some x" and x: "(i, y) = x" and y: "(due, e) = y"
  have mem: "earliest ts = Some z \<Longrightarrow> z \<in> set ts" for ts z
    by (induction ts arbitrary: z) (auto split: option.splits if_splits)
  from nd x [symmetric] y [symmetric] have "(i, due, e) \<in> set (timeouts s)"
    using mem [of "filter (\<lambda>x. fst (snd x) \<le> t) (timeouts s)" "(i, due, e)"]
    by (simp add: next_due_def)
  then have shorter: "length (filter (\<lambda>x. fst x \<noteq> i) (timeouts s)) < length (timeouts s)"
    by (auto intro!: length_filter_less)
  have keep: "timeouts (snd (timer_fired p e s')) = timeouts s'" for s'
    by (auto simp: timer_fired_def recordInputChange_def Let_def
        split: prod.splits option.splits sum.splits if_splits)
  show "((p, t, snd (timer_fired p e
            (s\<lparr>now := max (now s) due,
               timeouts := filter (\<lambda>x. fst x \<noteq> i) (timeouts s)\<rparr>))), p, t, s)
          \<in> measure (\<lambda>(p, t, s). length (timeouts s))"
    using shorter by (simp add: keep)
qed

declare run_until.simps [simp del]

text \<open>
  A burst of edits of one field: each pair is the time since the previous event and the
  value the field has after the edit.
\<close>

fun burst :: "page \<Rightarrow> field_ref \<Rightarrow> (int \<times> string) list \<Rightarrow> page_state \<Rightarrow> page_state" where
  "burst p e [] s = s"
| "burst p e ((gap, v) # rest) s =
     burst p e rest (input_event p e v (run_until p (now s + gap) s))"

text \<open>Fields whose edits \<open>handleInputEvent\<close> debounces: text-like inputs and textareas.\<close>

definition debounced_field :: "document \<Rightarrow> field \<Rightarrow> bool" where
  "debounced_field d f =
     (\<not> el_ignored f \<and>
      (el_kind f = HTMLTextAreaElement \<or>
       (el_kind f = HTMLInputElement \<and>
        toLowerCase d (el_type f) \<notin> set [''hidden'', ''submit'', ''button'', ''reset'', ''image''] \<and>
        toLowerCase d (el_type f) \<notin> set [''checkbox'', ''radio''])))"

text \<open>
  What the flush at the end of tracking relies on for a field with a pending timer: it is
  an input or a textarea, reading its value to record and describing it do not throw,
  and the value last recorded for it, if any, was sent in a message about it.
\<close>

definition flushable :: "page \<Rightarrow> page_state \<Rightarrow> field_ref \<Rightarrow> bool" where
  "flushable p s e =
     ((el_kind (field_of p e) = HTMLInputElement \<or> el_kind (field_of p e) = HTMLTextAreaElement) \<and>
      (case getRecordableValue (doc p) (field_of p e) (fieldValue s e) of
         Inl err \<Rightarrow> False | Inr r \<Rightarrow> True) \<and>
      (case getElementInfo p e of Inl err \<Rightarrow> False | Inr info \<Rightarrow> True) \<and>
      (case lastRecordedValues s e of
         None \<Rightarrow> True
       | Some v \<Rightarrow>
           list_ex (\<lambda>m. msg_value m = v \<and> getElementInfo p e = Inr (msg_element m)) (sent s)))"

text \<open>The current value of field \<open>e\<close>, as it is to be recorded, is in a message sent.\<close>

definition value_was_sent :: "page \<Rightarrow> page_state \<Rightarrow> field_ref \<Rightarrow> page_state \<Rightarrow> bool" where
  "value_was_sent p s e s' =
     (case getRecordableValue (doc p) (field_of p e) (fieldValue s e) of
        Inl err \<Rightarrow> False
      | Inr (v, sensitive) \<Rightarrow>
          list_ex (\<lambda>m. msg_value m = v \<and> getElementInfo p e = Inr (msg_element m)) (sent s'))"

text \<open>
  Two conditions on the timers as they concern field \<open>e\<close>. \<open>no_timer_for\<close>: no
  scheduled timeout is for \<open>e\<close> or has the id \<open>debounceTimers\<close> holds for \<open>e\<close>.
  \<open>timer_for\<close>: \<open>debounceTimers\<close> holds a non-zero id for \<open>e\<close>, and exactly one
  scheduled timeout has that id or is for \<open>e\<close>, namely the one for \<open>e\<close> with that id,
  due at the given time. In both, the timer ids are as a browser issues them: the ids
  scheduled are below the next id it will issue, and that one is positive, so every id
  it returns is truthy.
\<close>

definition no_timer_for :: "field_ref \<Rightarrow> page_state \<Rightarrow> bool" where
  "no_timer_for e s =
     (0 < nextTimer s \<and>
      list_all (\<lambda>x. snd (snd x) \<noteq> e \<and> fst x < nextTimer s \<and>
                     map_of (debounceTimers s) e \<noteq> Some (fst x)) (timeouts s))"

definition timer_for :: "field_ref \<Rightarrow> page_state \<Rightarrow> int \<Rightarrow> bool" where
  "timer_for e s due =
     ((case map_of (debounceTimers s) e of
         None \<Rightarrow> False
       | Some t \<Rightarrow>
           t \<noteq> 0 \<and>
           filter (\<lambda>x. fst x = t \<or> snd (snd x) = e) (timeouts s) = [(t, due, e)]) \<and>
      list_all (\<lambda>x. fst x < nextTimer s) (timeouts s))"

text \<open>
  The state of the detector in the middle of a burst on field \<open>e\<close> that began in state
  \<open>s0\<close>: the timer of \<open>e\<close> is due 1000 ms after the last edit, the field has the value
  \<open>v\<close>, and nothing has been sent or recorded for \<open>e\<close> since \<open>s0\<close>.
\<close>

definition armed :: "page_state \<Rightarrow> field_ref \<Rightarrow> page_state \<Rightarrow> string \<Rightarrow> bool" where
  "armed s0 e s v =
     (timer_for e s (now s + INPUT_DEBOUNCE_MS) \<and>
      sent_for e s = sent_for e s0 \<and> lastRecordedValues s e = lastRecordedValues s0 e \<and>
      fieldValue s e = v \<and> recordingStartTime s = recordingStartTime s0 \<and>
      inputCallback s = inputCallback s0 \<and> listening s)"

text \<open>What concerns field \<open>e\<close> and the tracking as a whole is the same in two states.\<close>

definition kept_for :: "field_ref \<Rightarrow> page_state \<Rightarrow> page_state \<Rightarrow> bool" where
  "kept_for e s s' =
     (sent_for e s' = sent_for e s \<and> lastRecordedValues s' e = lastRecordedValues s e \<and>
      fieldValue s' = fieldValue s \<and> recordingStartTime s' = recordingStartTime s \<and>
      inputCallback s' = inputCallback s \<and> listening s' = listening s)"

subsection \<open>The stop as both contexts run it\<close>

text \<open>
  \<^verbatim>\<open>DISABLE_RECORDING\<close> is sent from one place, \<open>disableRecordingInTab\<close>, which the
  orchestrator's \<open>stopRecording\<close> calls for each tracked tab (background/index.ts 224-226)
  after it has assigned \<open>isRecording = false\<close> and \<open>endTime\<close> (220-221). The content
  script answers it by running its own \<open>stopRecording\<close>, whose flush hands every message
  to \<open>sendToBackground\<close>; the orchestrator's listener receives them as \<^verbatim>\<open>INPUT_EVENT\<close>
  from that tab. \<open>stop_in_tab\<close> is this sequence for one tracked tab \<open>tid\<close> whose page is
  \<open>p\<close>: the messages delivered are the ones the content script sent during its stop.
\<close>

definition deliver :: "env \<Rightarrow> int \<Rightarrow> InputEventMessage list \<Rightarrow> bg_state \<Rightarrow> bg_state" where
  "deliver ev tid ms b = fold (\<lambda>m b'. snd (onMessage ev (INPUT_EVENT m) (Some tid) b')) ms b"

definition stop_in_tab ::
    "env \<Rightarrow> page \<Rightarrow> int \<Rightarrow> bg_state \<Rightarrow> page_state \<Rightarrow> bg_state \<times> page_state" where
  "stop_in_tab ev p tid b s =
     (let b1 = snd (stopRecording ev b);
          s1 = snd (cs_stopRecording p s)
      in (deliver ev tid (drop (length (sent s)) (sent s1)) b1, s1))"

section \<open>Example inputs\<close>

definition ex_ann :: "string \<Rightarrow> string \<Rightarrow> Annotation" where
  "ex_ann i t = \<lparr> ann_id = i, ann_timestamp = 1000, ann_text = t,
     ann_screenshotData = None, ann_audioData = None \<rparr>"

definition ex_session :: RecordingSession where
  "ex_session = \<lparr> session_id = ''session_1'', title = ''Login flow'', startTime = 100,
     endTime = None, isRecording = True, hasAudio = False, steps = [],
     annotations = [ex_ann ''ann_1'' ''first'', ex_ann ''ann_2'' ''second''],
     trackedTabIds = [1] \<rparr>"

definition ex_state :: bg_state where
  "ex_state = \<lparr> currentSession = Some ex_session, readyTabs = {1} \<rparr>"


definition ex_tab :: tab where
  "ex_tab = \<lparr> tab_id = Some 7, tab_title = Some ''Example'',
     tab_url = Some ''https://example.com/'', windowId = 3, openerTabId = None \<rparr>"

definition ex_env :: env where
  "ex_env = \<lparr> dateNow = 5100, fresh = (\<lambda>k. ''5100_abc''),
     queryActiveTab = Some ex_tab, tabsGet = (\<lambda>t. None), captureVisibleTab = (\<lambda>w. None),
     storageRejects = False \<rparr>"

definition ex_info :: ElementInfo where
  "ex_info = \<lparr> tag = ''button'', info_text = ''Submit Form'', selector = ''button.submit-btn'',
     info_type = None, info_name = None, info_id = None, className = None, ariaLabel = None \<rparr>"

definition ex_click_data :: step_data where
  "ex_click_data = \<lparr> data_timestamp = Some 5000, data_element = Some ex_info,
     data_inputValue = None, data_isSensitive = None,
     data_url = Some ''https://example.com/'' \<rparr>"

text \<open>
  A page whose body holds two \<open>div\<close>s with the same id \<open>dup\<close>, the first also carrying
  \<open>data-testid="first"\<close>, and the browser's answers on that page.
\<close>

definition html_el :: element where
  "html_el = Element 0 ''HTML'' [] [] [] None"

definition body_el :: element where
  "body_el = Element 1 ''BODY'' [] [] [] (Some html_el)"

definition dup1 :: element where
  "dup1 = Element 2 ''DIV'' ''dup'' [(''id'', ''dup''), (''data-testid'', ''first'')] []
            (Some body_el)"

definition dup2 :: element where
  "dup2 = Element 3 ''DIV'' ''dup'' [(''id'', ''dup'')] [] (Some body_el)"

definition dup_doc :: document where
  "dup_doc = \<lparr> body = body_el, documentElement = html_el,
     elements = [html_el, body_el, dup1, dup2],
     children = (\<lambda>p. if p = body_el then [dup1, dup2] else if p = html_el then [body_el] else []),
     querySelectorAll = (\<lambda>s. if s = ''#dup'' then Inr [dup1, dup2]
                               else if s = ''[data-testid='' @ dquote @ ''first'' @ dquote @ '']''
                               then Inr [dup1] else Inr []),
     elementQuerySelectorAll = (\<lambda>p s. Inr []),
     CSS_escape = (\<lambda>s. s), toLowerCase = ascii_lower \<rparr>"

text \<open>
  A page whose body holds an element with the tag name \<open>x:panel\<close> and the class \<open>card\<close>,
  which holds a button: \<^verbatim>\<open><body><x:panel class="card"><button>Go</button></x:panel></body>\<close>.
  The selector \<^verbatim>\<open>:scope > x:panel.card\<close> reads \<open>:panel\<close> as a pseudo-class, which no
  browser knows, so the query for it throws.
\<close>

definition panel_el :: element where
  "panel_el = Element 2 ''X:PANEL'' [] [(''class'', ''card'')] [''card''] (Some body_el)"

definition button_el :: element where
  "button_el = Element 3 ''BUTTON'' [] [] [] (Some panel_el)"

definition panel_doc :: document where
  "panel_doc = \<lparr> body = body_el, documentElement = html_el,
     elements = [html_el, body_el, panel_el, button_el],
     children = (\<lambda>p. if p = panel_el then [button_el] else if p = body_el then [panel_el]
                      else if p = html_el then [body_el] else []),
     querySelectorAll = (\<lambda>s. if s = ''x:panel.card'' then Inl SyntaxError else Inr []),
     elementQuerySelectorAll =
       (\<lambda>p s. if s = '':scope > x:panel.card'' then Inl SyntaxError else Inr []),
     CSS_escape = (\<lambda>s. s), toLowerCase = ascii_lower \<rparr>"

text \<open>
  A page with a text input \<open>#q\<close> (field 0) and a password input \<open>#pw\<close>
  (field 1); every other reference is an element that is not a form field. The page
  state is the one of a freshly loaded content script at clock time 100000.
\<close>

definition search_el :: element where
  "search_el = Element 2 ''INPUT'' ''q''
     [(''id'', ''q''), (''type'', ''text''), (''name'', ''q'')] [] (Some body_el)"

definition pw_el :: element where
  "pw_el = Element 3 ''INPUT'' ''pw'' [(''id'', ''pw''), (''type'', ''password'')] []
     (Some body_el)"

definition form_doc :: document where
  "form_doc = \<lparr> body = body_el, documentElement = html_el,
     elements = [html_el, body_el, search_el, pw_el],
     children = (\<lambda>p. if p = body_el then [search_el, pw_el]
                      else if p = html_el then [body_el] else []),
     querySelectorAll = (\<lambda>s. if s = ''#q'' then Inr [search_el]
                               else if s = ''#pw'' then Inr [pw_el] else Inr []),
     elementQuerySelectorAll = (\<lambda>p s. Inr []),
     CSS_escape = (\<lambda>s. s), toLowerCase = ascii_lower \<rparr>"

definition search_field :: field where
  "search_field = \<lparr> el_kind = HTMLInputElement, el_node = search_el, el_type = ''text'',
     el_name = ''q'', el_autocomplete = [], el_placeholder = [],
     el_labelFor = Inr None, el_closestLabel = None, el_textSecurity = ''none'',
     el_ignored = False, el_fieldLabel = Inr ''q'' \<rparr>"

definition pw_field :: field where
  "pw_field = \<lparr> el_kind = HTMLInputElement, el_node = pw_el, el_type = ''password'',
     el_name = [], el_autocomplete = [], el_placeholder = [],
     el_labelFor = Inr None, el_closestLabel = None, el_textSecurity = ''none'',
     el_ignored = False, el_fieldLabel = Inr [] \<rparr>"

definition other_field :: field where
  "other_field = \<lparr> el_kind = OtherElement, el_node = body_el, el_type = [],
     el_name = [], el_autocomplete = [], el_placeholder = [],
     el_labelFor = Inr None, el_closestLabel = None, el_textSecurity = ''none'',
     el_ignored = False, el_fieldLabel = Inr [] \<rparr>"

definition form_page :: page where
  "form_page = \<lparr> field_of = (\<lambda>r. if r = 0 then search_field
                                   else if r = 1 then pw_field else other_field),
     doc = form_doc, href = ''https://example.com/'' \<rparr>"

definition loaded :: page_state where
  "loaded = \<lparr> cs_isRecording = False, cs_recordingStartTime = None,
     recordingStartTime = None, inputCallback = None, debounceTimers = [],
     lastRecordedValues = Map.empty, listening = False, now = 100000, timeouts = [],
     nextTimer = 1, fieldValue = (\<lambda>r. []), calls = [] \<rparr>"

definition recording :: page_state where
  "recording = cs_startRecording (Some 100000) loaded"

text \<open>The messages field 0 and field 1 of that page give rise to.\<close>

definition search_info :: ElementInfo where
  "search_info = \<lparr> tag = ''input'', info_text = ''q'', selector = ''#q'',
     info_type = Some ''text'', info_name = Some ''q'', info_id = Some ''q'',
     className = None, ariaLabel = None \<rparr>"

definition search_msg :: "string \<Rightarrow> int \<Rightarrow> InputEventMessage" where
  "search_msg v ts = \<lparr> msg_element = search_info, msg_value = v, msg_isSensitive = False,
     msg_url = ''https://example.com/'', msg_timestamp = ts \<rparr>"

definition pw_info :: ElementInfo where
  "pw_info = \<lparr> tag = ''input'', info_text = [], selector = ''#pw'',
     info_type = Some ''password'', info_name = None, info_id = Some ''pw'',
     className = None, ariaLabel = None \<rparr>"

definition pw_msg :: "int \<Rightarrow> InputEventMessage" where
  "pw_msg ts = \<lparr> msg_element = pw_info, msg_value = ''********'', msg_isSensitive = True,
     msg_url = ''https://example.com/'', msg_timestamp = ts \<rparr>"

text \<open>Field 0 after \<open>user\<close> has been typed in three edits and the debounce time has passed.\<close>

definition typed_user :: page_state where
  "typed_user = run_until form_page 102000
     (burst form_page 0 [(0, ''u''), (200, ''us''), (300, ''user'')] recording)"

text \<open>A password typed into field 1 in three edits; its debounce timer is still pending.\<close>

definition typing_password :: page_state where
  "typing_password =
     burst form_page 1 [(0, ''h''), (200, ''hu''), (300, ''hunter2'')] recording"


text \<open>The same three edits of field 0, begun while the timer of the password is pending.\<close>

definition typing_user_too :: page_state where
  "typing_user_too =
     burst form_page 0 [(0, ''u''), (200, ''us''), (300, ''user'')] typing_password"

definition retyped_user :: page_state where
  "retyped_user = burst form_page 0 [(500, ''userx''), (200, ''user'')] typed_user"

text \<open>
  The page of the \<open>x:panel\<close> example with two text inputs: one without id, name or
  class inside the panel (field 0), and one with the id \<open>n\<close> in the body (field 1):
  \<^verbatim>\<open><body><x:panel class="card"><input type="text"></x:panel><input id="n" type="text"></body>\<close>.
\<close>

definition note_el :: element where
  "note_el = Element 3 ''INPUT'' [] [(''type'', ''text'')] [] (Some panel_el)"

definition name_el :: element where
  "name_el = Element 4 ''INPUT'' ''n'' [(''id'', ''n''), (''type'', ''text'')] [] (Some body_el)"

definition panel_form_doc :: document where
  "panel_form_doc = \<lparr> body = body_el, documentElement = html_el,
     elements = [html_el, body_el, panel_el, note_el, name_el],
     children = (\<lambda>p. if p = panel_el then [note_el] else if p = body_el then [panel_el, name_el]
                      else if p = html_el then [body_el] else []),
     querySelectorAll = (\<lambda>s. if s = ''#n'' then Inr [name_el]
                               else if s = ''x:panel.card'' then Inl SyntaxError else Inr []),
     elementQuerySelectorAll =
       (\<lambda>p s. if s = '':scope > x:panel.card'' then Inl SyntaxError else Inr []),
     CSS_escape = (\<lambda>s. s), toLowerCase = ascii_lower \<rparr>"

definition note_field :: field where
  "note_field = \<lparr> el_kind = HTMLInputElement, el_node = note_el, el_type = ''text'',
     el_name = [], el_autocomplete = [], el_placeholder = [],
     el_labelFor = Inr None, el_closestLabel = None, el_textSecurity = ''none'',
     el_ignored = False, el_fieldLabel = Inr [] \<rparr>"

definition name_field :: field where
  "name_field = \<lparr> el_kind = HTMLInputElement, el_node = name_el, el_type = ''text'',
     el_name = [], el_autocomplete = [], el_placeholder = [],
     el_labelFor = Inr None, el_closestLabel = None, el_textSecurity = ''none'',
     el_ignored = False, el_fieldLabel = Inr [] \<rparr>"

definition panel_page :: page where
  "panel_page = \<lparr> field_of = (\<lambda>r. if r = 0 then note_field
                                    else if r = 1 then name_field else other_field),
     doc = panel_form_doc, href = ''https://example.com/'' \<rparr>"

definition name_info :: ElementInfo where
  "name_info = \<lparr> tag = ''input'', info_text = [], selector = ''#n'',
     info_type = Some ''text'', info_name = None, info_id = Some ''n'',
     className = None, ariaLabel = None \<rparr>"

definition name_msg :: "string \<Rightarrow> int \<Rightarrow> InputEventMessage" where
  "name_msg v ts = \<lparr> msg_element = name_info, msg_value = v, msg_isSensitive = False,
     msg_url = ''https://example.com/'', msg_timestamp = ts \<rparr>"

text \<open>
  On that page, \<open>a\<close> is typed into field 0, and 200 ms later \<open>b\<close> into field 1.
\<close>

definition typing_note :: page_state where
  "typing_note = burst panel_page 0 [(0, ''a'')] recording"




section \<open>Properties of the orchestrator\<close>

lemma find_index_None: "find_index P xs = None \<longleftrightarrow> (\<forall>x \<in> set xs. \<not> P x)"
  by (induction xs) auto

lemma find_index_Some:
  "find_index P xs = Some i \<Longrightarrow> i < length xs \<and> P (xs ! i) \<and> (\<forall>j < i. \<not> P (xs ! j))"
proof (induction xs arbitrary: i)
  case Nil
  then show ?case by simp
next
  case (Cons x xs)
  show ?case
  proof (cases "P x")
    case True
    with Cons.prems show ?thesis by simp
  next
    case False
    with Cons.prems obtain k where k: "find_index P xs = Some k" "i = Suc k"
      by auto
    from Cons.IH [OF k(1)] False k(2) show ?thesis
      by (auto simp: nth_Cons split: nat.splits)
  qed
qed

text \<open>
  Claim C10. \<open>updateAnnotation(id, text)\<close> with an id present among the session's
  annotations changes the \<open>text\<close> of the first annotation carrying that id and nothing
  else: the steps, the tracked tabs, the session's id, title, start and end time, its
  recording and audio flags, the number of annotations and every other annotation are as
  before, and so is \<open>readyTabs\<close>. With an unknown id, or with no session, the state is
  unchanged and the result is \<open>None\<close> (the \<open>null\<close> the listener turns into
  \<open>success: false\<close>).
\<close>

theorem updateAnnotation_frame:
  "(currentSession s = None \<longrightarrow> updateAnnotation annotationId txt s = (None, s)) \<and>
   (\<forall>cs. currentSession s = Some cs \<longrightarrow>
      ((\<forall>a \<in> set (annotations cs). ann_id a \<noteq> annotationId) \<longrightarrow>
          updateAnnotation annotationId txt s = (None, s)) \<and>
      ((\<exists>a \<in> set (annotations cs). ann_id a = annotationId) \<longrightarrow>
          (\<exists>i cs'. i < length (annotations cs) \<and> ann_id (annotations cs ! i) = annotationId \<and>
             (\<forall>j < i. ann_id (annotations cs ! j) \<noteq> annotationId) \<and>
             updateAnnotation annotationId txt s =
               (Some ((annotations cs ! i)\<lparr>ann_text := txt\<rparr>), s\<lparr>currentSession := Some cs'\<rparr>) \<and>
             steps cs' = steps cs \<and> trackedTabIds cs' = trackedTabIds cs \<and>
             session_id cs' = session_id cs \<and> title cs' = title cs \<and>
             startTime cs' = startTime cs \<and> endTime cs' = endTime cs \<and>
             isRecording cs' = isRecording cs \<and> hasAudio cs' = hasAudio cs \<and>
             length (annotations cs') = length (annotations cs) \<and>
             annotations cs' ! i = (annotations cs ! i)\<lparr>ann_text := txt\<rparr> \<and>
             (\<forall>j < length (annotations cs). j \<noteq> i \<longrightarrow>
                annotations cs' ! j = annotations cs ! j))))"
proof (intro conjI allI impI)
  assume "currentSession s = None"
  then show "updateAnnotation annotationId txt s = (None, s)"
    by (simp add: updateAnnotation_def)
next
  fix cs
  assume cs: "currentSession s = Some cs"
    and no: "\<forall>a \<in> set (annotations cs). ann_id a \<noteq> annotationId"
  from no have "find_index (\<lambda>a. ann_id a = annotationId) (annotations cs) = None"
    by (simp add: find_index_None)
  with cs show "updateAnnotation annotationId txt s = (None, s)"
    by (simp add: updateAnnotation_def)
next
  fix cs
  assume cs: "currentSession s = Some cs"
    and ex: "\<exists>a \<in> set (annotations cs). ann_id a = annotationId"
  let ?P = "\<lambda>a. ann_id a = annotationId"
  from ex have "find_index ?P (annotations cs) \<noteq> None"
    by (simp add: find_index_None)
  then obtain i where i: "find_index ?P (annotations cs) = Some i"
    by auto
  note fi = find_index_Some [OF i]
  let ?cs' = "cs\<lparr>annotations := (annotations cs)[i := (annotations cs ! i)\<lparr>ann_text := txt\<rparr>]\<rparr>"
  have upd: "updateAnnotation annotationId txt s =
      (Some ((annotations cs ! i)\<lparr>ann_text := txt\<rparr>), s\<lparr>currentSession := Some ?cs'\<rparr>)"
    using cs i by (simp add: updateAnnotation_def Let_def)
  show "\<exists>i cs'. i < length (annotations cs) \<and> ann_id (annotations cs ! i) = annotationId \<and>
             (\<forall>j < i. ann_id (annotations cs ! j) \<noteq> annotationId) \<and>
             updateAnnotation annotationId txt s =
               (Some ((annotations cs ! i)\<lparr>ann_text := txt\<rparr>), s\<lparr>currentSession := Some cs'\<rparr>) \<and>
             steps cs' = steps cs \<and> trackedTabIds cs' = trackedTabIds cs \<and>
             session_id cs' = session_id cs \<and> title cs' = title cs \<and>
             startTime cs' = startTime cs \<and> endTime cs' = endTime cs \<and>
             isRecording cs' = isRecording cs \<and> hasAudio cs' = hasAudio cs \<and>
             length (annotations cs') = length (annotations cs) \<and>
             annotations cs' ! i = (annotations cs ! i)\<lparr>ann_text := txt\<rparr> \<and>
             (\<forall>j < length (annotations cs). j \<noteq> i \<longrightarrow>
                annotations cs' ! j = annotations cs ! j)"
    apply (rule exI [of _ i], rule exI [of _ ?cs'])
    using fi upd by simp
qed

text \<open>The three cases of C10 on a session with two annotations.\<close>

theorem updateAnnotation_frame_witness:
  "updateAnnotation ''ann_2'' ''changed'' ex_state =
     (Some (ex_ann ''ann_2'' ''changed''),
      ex_state\<lparr>currentSession := Some (ex_session\<lparr>annotations :=
         [ex_ann ''ann_1'' ''first'', ex_ann ''ann_2'' ''changed'']\<rparr>)\<rparr>) \<and>
   updateAnnotation ''ann_9'' ''changed'' ex_state = (None, ex_state) \<and>
   updateAnnotation ''ann_2'' ''changed'' (ex_state\<lparr>currentSession := None\<rparr>)
     = (None, ex_state\<lparr>currentSession := None\<rparr>)"
  using updateAnnotation_frame [of ex_state "''ann_2''" "''changed''"]
    updateAnnotation_frame [of ex_state "''ann_9''" "''changed''"]
    updateAnnotation_frame [of "ex_state\<lparr>currentSession := None\<rparr>" "''ann_2''" "''changed''"]
  by (simp add: updateAnnotation_def ex_state_def ex_session_def ex_ann_def Let_def)


lemma startRecording_no_tab:
  assumes "\<not> (\<exists>t. queryActiveTab ev = Some t \<and> truthy_num (tab_id t))"
  shows "startRecording_with ev ttl audio during_capture during_save s = (Inl NoActiveTabFound, s)"
  using assms
  by (auto simp: startRecording_with_def startRecording_create_def truthy_num_def
      split: option.splits)

text \<open>
  Claim C4, as stated, does not hold: between the assignment of the new session and the
  push of the initial step \<open>startRecording\<close> is suspended, and a handler that runs then
  finds a recording session. Here the tab finishes loading during the capture and
  \<open>onUpdated\<close> adds its navigation step first; the call succeeds and the session it
  returns has two steps.
\<close>

theorem startRecording_interleaved_counterexample:
  "map step_timestamp
     (steps (the (projr (fst
        (startRecording_with ex_env ''Login flow'' False
           (onUpdated (ex_env\<lparr>dateNow := 5500\<rparr>) 7 True (Some ''https://example.com/''))
           id \<lparr>currentSession = None, readyTabs = {}\<rparr>)))))
     = [400, 0]"
  by (simp add: startRecording_with_def startRecording_create_def startRecording_push_def
      startRecording_return_def saveSessionMetadata_def onUpdated_def addStep_def ex_env_def
      ex_tab_def truthy_num_def truthy_str_def Let_def)

text \<open>
  Claim C4, amended. Without an active tab (none returned, or one whose \<open>id\<close> is missing
  or \<open>0\<close>) \<open>startRecording\<close> throws and leaves the state as it was, whatever ran
  meanwhile. With an active tab, when no other handler runs during its suspensions and
  the save to storage does not reject, it returns the new session, which is the current
  session afterwards and whose steps are exactly one step: a navigation with timestamp
  \<open>0\<close> and no element. When the save to storage rejects, the call fails with that
  error, after the session has been created.
\<close>

theorem startRecording_outcome:
  "(\<not> (\<exists>t. queryActiveTab ev = Some t \<and> truthy_num (tab_id t)) \<longrightarrow>
      startRecording_with ev ttl audio during_capture during_save s
        = (Inl NoActiveTabFound, s)) \<and>
   ((\<exists>t. queryActiveTab ev = Some t \<and> truthy_num (tab_id t)) \<and> \<not> storageRejects ev \<longrightarrow>
      (\<exists>session st.
         startRecording ev ttl audio s
           = (Inr (Some session), s\<lparr>currentSession := Some session\<rparr>) \<and>
         steps session = [st] \<and> step_type st = Navigation \<and> step_timestamp st = 0 \<and>
         element st = None \<and> isRecording session \<and> title session = ttl \<and>
         hasAudio session = audio)) \<and>
   ((\<exists>t. queryActiveTab ev = Some t \<and> truthy_num (tab_id t)) \<and> storageRejects ev \<longrightarrow>
      (\<exists>session.
         startRecording ev ttl audio s
           = (Inl StorageError, s\<lparr>currentSession := Some session\<rparr>) \<and>
         isRecording session))"
proof (intro conjI impI)
  assume "\<not> (\<exists>t. queryActiveTab ev = Some t \<and> truthy_num (tab_id t))"
  then show "startRecording_with ev ttl audio during_capture during_save s
      = (Inl NoActiveTabFound, s)"
    by (rule startRecording_no_tab)
next
  assume a: "(\<exists>t. queryActiveTab ev = Some t \<and> truthy_num (tab_id t)) \<and> \<not> storageRejects ev"
  then obtain t aid where t: "queryActiveTab ev = Some t" "tab_id t = Some aid" "aid \<noteq> 0"
    by (auto simp: truthy_num_def split: option.splits)
  from t a show "\<exists>session st.
         startRecording ev ttl audio s
           = (Inr (Some session), s\<lparr>currentSession := Some session\<rparr>) \<and>
         steps session = [st] \<and> step_type st = Navigation \<and> step_timestamp st = 0 \<and>
         element st = None \<and> isRecording session \<and> title session = ttl \<and>
         hasAudio session = audio"
    by (simp add: startRecording_def startRecording_with_def startRecording_create_def
        startRecording_push_def startRecording_return_def saveSessionMetadata_def Let_def)
next
  assume a: "(\<exists>t. queryActiveTab ev = Some t \<and> truthy_num (tab_id t)) \<and> storageRejects ev"
  then obtain t aid where t: "queryActiveTab ev = Some t" "tab_id t = Some aid" "aid \<noteq> 0"
    by (auto simp: truthy_num_def split: option.splits)
  from t a show "\<exists>session.
         startRecording ev ttl audio s
           = (Inl StorageError, s\<lparr>currentSession := Some session\<rparr>) \<and>
         isRecording session"
    by (simp add: startRecording_def startRecording_with_def startRecording_create_def
        startRecording_push_def startRecording_return_def saveSessionMetadata_def Let_def)
      (rule exI, rule conjI, rule refl, simp)
qed

text \<open>
  A start on tab 7, a start with no active tab, and a start on tab 7 when the storage
  rejects.
\<close>

theorem startRecording_outcome_witness:
  "(\<exists>t. queryActiveTab ex_env = Some t \<and> truthy_num (tab_id t)) \<and> \<not> storageRejects ex_env \<and>
   map (\<lambda>st. (step_type st, step_timestamp st, element st, tabId st, step_url st))
       (steps (the (currentSession
          (snd (startRecording ex_env ''Login flow'' False \<lparr>currentSession = None, readyTabs = {}\<rparr>)))))
     = [(Navigation, 0, None, 7, ''https://example.com/'')] \<and>
   \<not> (\<exists>t. queryActiveTab (ex_env\<lparr>queryActiveTab := None\<rparr>) = Some t \<and> truthy_num (tab_id t)) \<and>
   startRecording_with (ex_env\<lparr>queryActiveTab := None\<rparr>) ''Login flow'' False
       (onUpdated ex_env 1 True (Some ''https://example.com/'')) id ex_state
     = (Inl NoActiveTabFound, ex_state) \<and>
   (\<exists>t. queryActiveTab (ex_env\<lparr>storageRejects := True\<rparr>) = Some t \<and> truthy_num (tab_id t)) \<and>
   storageRejects (ex_env\<lparr>storageRejects := True\<rparr>) \<and>
   fst (startRecording (ex_env\<lparr>storageRejects := True\<rparr>) ''Login flow'' False
          \<lparr>currentSession = None, readyTabs = {}\<rparr>) = Inl StorageError"
proof -
  have h1: "(\<exists>t. queryActiveTab ex_env = Some t \<and> truthy_num (tab_id t)) \<and> \<not> storageRejects ex_env"
    by (simp add: ex_env_def ex_tab_def truthy_num_def)
  have h2: "\<not> (\<exists>t. queryActiveTab (ex_env\<lparr>queryActiveTab := None\<rparr>) = Some t \<and> truthy_num (tab_id t))"
    by simp
  note t1 = startRecording_outcome [of ex_env "''Login flow''" False
          id id "\<lparr>currentSession = None, readyTabs = {}\<rparr>"]
  note t2 = startRecording_outcome [of "ex_env\<lparr>queryActiveTab := None\<rparr>" "''Login flow''" False
          "onUpdated ex_env 1 True (Some ''https://example.com/'')" id ex_state]
  from t2 h2 have r2: "startRecording_with (ex_env\<lparr>queryActiveTab := None\<rparr>) ''Login flow'' False
       (onUpdated ex_env 1 True (Some ''https://example.com/'')) id ex_state
     = (Inl NoActiveTabFound, ex_state)"
    by blast
  from t1 h1 obtain session st where
    r1: "startRecording ex_env ''Login flow'' False \<lparr>currentSession = None, readyTabs = {}\<rparr>
           = (Inr (Some session), \<lparr>currentSession = None, readyTabs = {}\<rparr>\<lparr>currentSession := Some session\<rparr>)"
      "steps session = [st]" "step_type st = Navigation" "step_timestamp st = 0" "element st = None"
    by blast
  have c: "map (\<lambda>st. (step_type st, step_timestamp st, element st, tabId st, step_url st))
       (steps (the (currentSession
          (snd (startRecording ex_env ''Login flow'' False \<lparr>currentSession = None, readyTabs = {}\<rparr>)))))
     = [(Navigation, 0, None, 7, ''https://example.com/'')]"
    by (simp add: startRecording_def startRecording_with_def startRecording_create_def
        startRecording_push_def startRecording_return_def saveSessionMetadata_def ex_env_def
        ex_tab_def Let_def or_str_def)
  have h3: "(\<exists>t. queryActiveTab (ex_env\<lparr>storageRejects := True\<rparr>) = Some t \<and>
                 truthy_num (tab_id t)) \<and>
            storageRejects (ex_env\<lparr>storageRejects := True\<rparr>)"
    by (simp add: ex_env_def ex_tab_def truthy_num_def)
  note t3 = startRecording_outcome [of "ex_env\<lparr>storageRejects := True\<rparr>" "''Login flow''" False
          id id "\<lparr>currentSession = None, readyTabs = {}\<rparr>"]
  from t3 h3 have r3: "fst (startRecording (ex_env\<lparr>storageRejects := True\<rparr>) ''Login flow'' False
          \<lparr>currentSession = None, readyTabs = {}\<rparr>) = Inl StorageError"
    by force
  from h1 h2 r2 c h3 r3 show ?thesis by blast
qed

lemma addStep_recording:
  assumes "currentSession s = Some cs" and "isRecording cs"
  shows "\<exists>st cs'. addStep ev ty d t s = (Some st, s\<lparr>currentSession := Some cs'\<rparr>) \<and>
           steps cs' = steps cs @ [st] \<and> tabId st = t \<and> step_type st = ty \<and>
           element st = data_element d \<and> inputValue st = data_inputValue d \<and>
           isSensitive st = data_isSensitive d \<and>
           set (trackedTabIds cs') = insert t (set (trackedTabIds cs))"
proof -
  obtain st where st: "fst (addStep ev ty d t s) = Some st"
    using assms by (simp add: addStep_def Let_def)
  have fields: "tabId st = t \<and> step_type st = ty \<and> element st = data_element d \<and>
      inputValue st = data_inputValue d \<and> isSensitive st = data_isSensitive d"
    using assms st by (auto simp: addStep_def Let_def)
  let ?pushed = "cs\<lparr>steps := steps cs @ [st]\<rparr>"
  let ?cs' = "if t \<in> set (trackedTabIds cs) then ?pushed
              else ?pushed\<lparr>trackedTabIds := trackedTabIds cs @ [t]\<rparr>"
  have "snd (addStep ev ty d t s) = s\<lparr>currentSession := Some ?cs'\<rparr>"
    using assms st by (auto simp: addStep_def Let_def)
  with st have "addStep ev ty d t s = (Some st, s\<lparr>currentSession := Some ?cs'\<rparr>)"
    by (metis prod.collapse)
  moreover have "steps ?cs' = steps cs @ [st]" by simp
  moreover have "set (trackedTabIds ?cs') = insert t (set (trackedTabIds cs))"
    by (auto simp: insert_absorb)
  ultimately show ?thesis using fields by blast
qed

lemma addStep_not_recording:
  "currentSession s = Some cs \<Longrightarrow> \<not> isRecording cs \<Longrightarrow> addStep ev ty d t s = (None, s)"
  by (simp add: addStep_def)

text \<open>
  Claim C5. When the tab that is removed is the last tracked one (after its removal the
  tracked tabs are empty) and the session is recording, the listener itself stops the
  session: it is no longer recording, its end time is set, its steps are kept. From then
  on \<open>addStep\<close> returns \<open>null\<close> and leaves the state as it is, so click and input messages
  and completed navigations add nothing.
\<close>

theorem onRemoved_last_tab_stops:
  assumes "currentSession s = Some cs" and "isRecording cs"
    and "tid \<in> set (trackedTabIds cs)" and "remove1 tid (trackedTabIds cs) = []"
  shows "\<exists>cs'. currentSession (onRemoved ev tid s) = Some cs' \<and>
           \<not> isRecording cs' \<and> endTime cs' = Some (dateNow ev) \<and>
           steps cs' = steps cs \<and> trackedTabIds cs' = [] \<and>
           (\<forall>ev' ty d t. addStep ev' ty d t (onRemoved ev tid s) = (None, onRemoved ev tid s)) \<and>
           (\<forall>ev' el u ts sender.
              snd (onMessage ev' (CLICK_EVENT el u ts) sender (onRemoved ev tid s))
                = onRemoved ev tid s) \<and>
           (\<forall>ev' msg sender.
              snd (onMessage ev' (INPUT_EVENT msg) sender (onRemoved ev tid s))
                = onRemoved ev tid s) \<and>
           (\<forall>ev' t c u. onUpdated ev' t c u (onRemoved ev tid s) = onRemoved ev tid s)"
proof -
  let ?cs' = "cs\<lparr>trackedTabIds := [], isRecording := False, endTime := Some (dateNow ev)\<rparr>"
  let ?s' = "onRemoved ev tid s"
  have s': "currentSession ?s' = Some ?cs'"
    using assms
    by (simp add: onRemoved_def stopRecording_def saveSessionMetadata_def Let_def
        split: option.splits)
  have stopped: "\<not> isRecording ?cs'" by simp
  have add: "addStep ev' ty d t ?s' = (None, ?s')" for ev' ty d t
    by (rule addStep_not_recording [OF s' stopped])
  have upd: "onUpdated ev' t c u ?s' = ?s'" for ev' t c u
    using s' by (simp add: onUpdated_def)
  have clk: "snd (onMessage ev' (CLICK_EVENT el u ts) sender ?s') = ?s'" for ev' el u ts sender
    by (simp add: onMessage_def add)
  have inp: "snd (onMessage ev' (INPUT_EVENT msg) sender ?s') = ?s'" for ev' msg sender
    by (simp add: onMessage_def add)
  show ?thesis
    apply (rule exI [of _ ?cs'])
    using s' add upd clk inp by simp
qed

text \<open>Closing tab 1, the only tracked tab of the example session.\<close>

theorem onRemoved_last_tab_stops_witness:
  "currentSession ex_state = Some ex_session \<and> isRecording ex_session \<and>
   1 \<in> set (trackedTabIds ex_session) \<and> remove1 1 (trackedTabIds ex_session) = [] \<and>
   currentSession (onRemoved ex_env 1 ex_state)
     = Some (ex_session\<lparr>trackedTabIds := [], isRecording := False, endTime := Some 5100\<rparr>) \<and>
   addStep ex_env Click ex_click_data 1 (onRemoved ex_env 1 ex_state)
     = (None, onRemoved ex_env 1 ex_state)"
proof -
  have h: "currentSession ex_state = Some ex_session" "isRecording ex_session"
    "1 \<in> set (trackedTabIds ex_session)" "remove1 1 (trackedTabIds ex_session) = []"
    by (simp_all add: ex_state_def ex_session_def)
  have r: "currentSession (onRemoved ex_env 1 ex_state)
     = Some (ex_session\<lparr>trackedTabIds := [], isRecording := False, endTime := Some 5100\<rparr>)"
    by (simp add: onRemoved_def stopRecording_def saveSessionMetadata_def ex_state_def
        ex_session_def ex_env_def Let_def)
  from onRemoved_last_tab_stops [OF h, of ex_env] h r show ?thesis
    by auto
qed

text \<open>
  Claim C1, as stated, does not hold: \<open>addStep\<close> tests only that a session exists and is
  recording, and the listener only that the sender has a tab id. A click arriving from
  tab 2 while only tab 1 is tracked is appended as a step.
\<close>

theorem untracked_tab_click_counterexample:
  "isRecording ex_session \<and> 2 \<notin> set (trackedTabIds ex_session) \<and>
   steps ex_session = [] \<and>
   map tabId (steps (the (currentSession
      (snd (onMessage ex_env (CLICK_EVENT ex_info ''https://example.com/'' 5000) (Some 2)
              ex_state))))) = [2]"
  by (simp add: onMessage_def addStep_def ex_state_def ex_session_def ex_env_def truthy_num_def
      Let_def)

text \<open>
  Claim C1, amended. While a session is recording, a click or input message whose sender
  has a tab id is appended as a step with that tab id, whether or not the tab is tracked,
  and the tab is added to the tracked tabs if it is new; so the tab id of the appended
  step is among the tracked tabs once the step has been recorded.
\<close>

theorem interaction_step_tab_tracked:
  assumes "currentSession s = Some cs" and "isRecording cs" and "truthy_num sender"
    and "m = CLICK_EVENT el u ts \<or> m = INPUT_EVENT msg"
  shows "\<exists>st cs'. onMessage ev m sender s
             = (Some (StepResponse True (Some st)), s\<lparr>currentSession := Some cs'\<rparr>) \<and>
           steps cs' = steps cs @ [st] \<and> tabId st = the sender \<and>
           tabId st \<in> set (trackedTabIds cs') \<and>
           set (trackedTabIds cs') = insert (the sender) (set (trackedTabIds cs))"
proof -
  have step: "\<exists>st cs'. addStep ev ty d (the sender) s
                 = (Some st, s\<lparr>currentSession := Some cs'\<rparr>) \<and>
               steps cs' = steps cs @ [st] \<and> tabId st = the sender \<and>
               tabId st \<in> set (trackedTabIds cs') \<and>
               set (trackedTabIds cs') = insert (the sender) (set (trackedTabIds cs))" for ty d
    using addStep_recording [OF assms(1,2), of ev ty d "the sender"] by auto
  from assms(4) show ?thesis
  proof
    assume m: "m = CLICK_EVENT el u ts"
    from step [of Click "\<lparr> data_timestamp = Some ts, data_element = Some el,
        data_inputValue = None, data_isSensitive = None, data_url = Some u \<rparr>"]
    obtain st cs' where r: "addStep ev Click \<lparr> data_timestamp = Some ts,
          data_element = Some el, data_inputValue = None, data_isSensitive = None,
          data_url = Some u \<rparr> (the sender) s = (Some st, s\<lparr>currentSession := Some cs'\<rparr>)"
        "steps cs' = steps cs @ [st]" "tabId st = the sender"
        "tabId st \<in> set (trackedTabIds cs')"
        "set (trackedTabIds cs') = insert (the sender) (set (trackedTabIds cs))"
      by blast
    have "onMessage ev m sender s
            = (Some (StepResponse True (Some st)), s\<lparr>currentSession := Some cs'\<rparr>)"
      using assms(3) m r(1) by (simp add: onMessage_def)
    with r(2-5) show ?thesis by blast
  next
    assume m: "m = INPUT_EVENT msg"
    from step [of Input "\<lparr> data_timestamp = Some (msg_timestamp msg),
        data_element = Some (msg_element msg), data_inputValue = Some (msg_value msg),
        data_isSensitive = Some (msg_isSensitive msg), data_url = Some (msg_url msg) \<rparr>"]
    obtain st cs' where r: "addStep ev Input \<lparr> data_timestamp = Some (msg_timestamp msg),
          data_element = Some (msg_element msg), data_inputValue = Some (msg_value msg),
          data_isSensitive = Some (msg_isSensitive msg), data_url = Some (msg_url msg) \<rparr>
          (the sender) s = (Some st, s\<lparr>currentSession := Some cs'\<rparr>)"
        "steps cs' = steps cs @ [st]" "tabId st = the sender"
        "tabId st \<in> set (trackedTabIds cs')"
        "set (trackedTabIds cs') = insert (the sender) (set (trackedTabIds cs))"
      by blast
    have "onMessage ev m sender s
            = (Some (StepResponse True (Some st)), s\<lparr>currentSession := Some cs'\<rparr>)"
      using assms(3) m r(1) by (simp add: onMessage_def)
    with r(2-5) show ?thesis by blast
  qed
qed

text \<open>The click from the untracked tab 2: the step is appended and tab 2 becomes tracked.\<close>

theorem interaction_step_tab_tracked_witness:
  "currentSession ex_state = Some ex_session \<and> isRecording ex_session \<and>
   truthy_num (Some 2) \<and>
   map tabId (steps (the (currentSession
      (snd (onMessage ex_env (CLICK_EVENT ex_info ''https://example.com/'' 5000) (Some 2)
              ex_state))))) = [2] \<and>
   trackedTabIds (the (currentSession
      (snd (onMessage ex_env (CLICK_EVENT ex_info ''https://example.com/'' 5000) (Some 2)
              ex_state)))) = [1, 2]"
proof -
  have h: "currentSession ex_state = Some ex_session" "isRecording ex_session"
    "truthy_num (Some 2)"
    by (simp_all add: ex_state_def ex_session_def truthy_num_def)
  from interaction_step_tab_tracked [OF h, of "CLICK_EVENT ex_info ''https://example.com/'' 5000"
      ex_info "''https://example.com/''" 5000 "pw_msg 0" ex_env] h
  show ?thesis
    by (simp add: onMessage_def addStep_def ex_state_def ex_session_def ex_env_def truthy_num_def
        Let_def)
qed

section \<open>Properties of the selector synthesizer\<close>

lemma two_members_not_single:
  assumes "x \<in> set xs" and "y \<in> set xs" and "x \<noteq> y"
  shows "length xs \<noteq> 1"
proof
  assume "length xs = 1"
  then obtain z where "xs = [z]"
    by (cases xs) auto
  with assms show False by simp
qed

lemma shared_id_not_unique:
  assumes agree: "id_queries_agree d"
    and e1: "e1 \<in> set (elements d)" and e2: "e2 \<in> set (elements d)"
    and ne: "e1 \<noteq> e2" and same: "elem_id e1 = elem_id e2"
  shows "tryIdSelector d e1 = Inr None"
proof (cases "elem_id e1 = []")
  case True
  then show ?thesis by (simp add: tryIdSelector_def)
next
  case False
  let ?found = "filter (\<lambda>y. elem_id y = elem_id e1) (elements d)"
  from agree e1 False
  have q: "querySelectorAll d (''#'' @ CSS_escape d (elem_id e1)) = Inr ?found"
    by (auto simp: id_queries_agree_def list_all_iff)
  have "e1 \<in> set ?found" "e2 \<in> set ?found"
    using e1 e2 same by simp_all
  then have "length ?found \<noteq> 1"
    using ne by (rule two_members_not_single)
  with q False show ?thesis
    by (simp add: tryIdSelector_def isUniqueId_def)
qed

lemma falls_through_to_attributes:
  assumes "tryIdSelector d e = Inr None" and "tryAttributeSelector d e = Some sel"
  shows "generateSelector d e = Inr sel"
  using assms by (simp add: generateSelector_def)

text \<open>
  Claim C2. Two different elements of the document with the same id: for neither does the
  id tier produce a selector, since the id query finds both. Each falls through to the
  attribute tier: when that tier finds a selector it is the result, and when it does not
  the result is what the class tier, the anchored path and the full path give.
\<close>

theorem colliding_ids_skip_id_tier:
  assumes "id_queries_agree d"
    and "e1 \<in> set (elements d)" and "e2 \<in> set (elements d)"
    and "e1 \<noteq> e2" and "elem_id e1 = elem_id e2"
  shows "tryIdSelector d e1 = Inr None \<and> tryIdSelector d e2 = Inr None \<and>
         (\<forall>sel. tryAttributeSelector d e1 = Some sel \<longrightarrow> generateSelector d e1 = Inr sel) \<and>
         (\<forall>sel. tryAttributeSelector d e2 = Some sel \<longrightarrow> generateSelector d e2 = Inr sel) \<and>
         (tryAttributeSelector d e1 = None \<longrightarrow> generateSelector d e1 =
            (case tryClassSelector d e1 of
               Some classSelector \<Rightarrow> Inr classSelector
             | None \<Rightarrow>
                 (case findNearestIdAncestor d e1 of
                    Inl err \<Rightarrow> Inl err
                  | Inr None \<Rightarrow> buildFullPathSelector d e1
                  | Inr (Some (ancestor, path)) \<Rightarrow>
                      (case buildPathSelector d ancestor path e1 of
                         Inl err \<Rightarrow> Inl err
                       | Inr pathSelector \<Rightarrow>
                           if isUnique d pathSelector then Inr pathSelector
                           else buildFullPathSelector d e1))))"
proof -
  have t1: "tryIdSelector d e1 = Inr None"
    using assms by (rule shared_id_not_unique)
  have t2: "tryIdSelector d e2 = Inr None"
    using assms(1,3,2) assms(4,5) [symmetric] by (rule shared_id_not_unique)
  from t1 t2 show ?thesis
    by (simp add: generateSelector_def)
qed

text \<open>The two \<open>div\<close>s with id \<open>dup\<close>: one is named by its test id, the other by its path.\<close>

theorem colliding_ids_skip_id_tier_witness:
  "id_queries_agree dup_doc \<and> dup1 \<in> set (elements dup_doc) \<and> dup2 \<in> set (elements dup_doc) \<and>
   dup1 \<noteq> dup2 \<and> elem_id dup1 = elem_id dup2 \<and>
   tryIdSelector dup_doc dup1 = Inr None \<and> tryIdSelector dup_doc dup2 = Inr None \<and>
   generateSelector dup_doc dup1 = Inr (''[data-testid='' @ dquote @ ''first'' @ dquote @ '']'') \<and>
   generateSelector dup_doc dup2 = Inr ''div:nth-of-type(2)''"
proof -
  have h: "id_queries_agree dup_doc" "dup1 \<in> set (elements dup_doc)"
    "dup2 \<in> set (elements dup_doc)" "dup1 \<noteq> dup2" "elem_id dup1 = elem_id dup2"
    by code_simp+
  have g: "generateSelector dup_doc dup1
             = Inr (''[data-testid='' @ dquote @ ''first'' @ dquote @ '']'')"
    "generateSelector dup_doc dup2 = Inr ''div:nth-of-type(2)''"
    by code_simp+
  from colliding_ids_skip_id_tier [OF h] h g show ?thesis
    by simp
qed

text \<open>
  Claim C7, the part that holds: a query that throws inside \<open>isUnique\<close> is answered
  \<open>false\<close>, so the attribute, class and anchored-path tiers move on.
\<close>

lemma isUnique_syntax_error:
  "querySelectorAll d sel = Inl err \<Longrightarrow> \<not> isUnique d sel"
  by (simp add: isUnique_def)


lemma tryAttributeSelector_skips_syntax_error:
  assumes "getAttribute e attr = Some v"
    and "querySelectorAll d (''['' @ attr @ ''='' @ dquote @ CSS_escape d v @ dquote @ '']'')
           = Inl err"
  shows "tryAttributeSelector_from d e (attr # rest) = tryAttributeSelector_from d e rest"
  using assms by (simp add: isUnique_def)

text \<open>
  Claim C7, the part that fails: \<open>getSimpleSelector\<close> queries the parent for
  \<^verbatim>\<open>:scope > tag.class\<close> outside any \<open>try\<close>. On the page with the \<open>x:panel\<close> element the
  class tier swallows the exception of \<^verbatim>\<open>x:panel.card\<close>, and the full-path tier then
  throws it: \<open>generateSelector\<close> returns no selector, neither for the element itself nor
  for the button inside it.
\<close>

theorem unguarded_sibling_query_throws:
  "querySelectorAll panel_doc ''x:panel.card'' = Inl SyntaxError \<and>
   tryClassSelector panel_doc panel_el = None \<and>
   generateSelector panel_doc panel_el = Inl SyntaxError \<and>
   generateSelector panel_doc button_el = Inl SyntaxError"
  by code_simp

section \<open>Properties of the input detector\<close>

lemma sent_updates [simp]:
  "sent (s\<lparr>calls := c\<rparr>) = map snd c"
  "sent (s\<lparr>fieldValue := fv\<rparr>) = sent s"
  "sent (s\<lparr>lastRecordedValues := l\<rparr>) = sent s"
  "sent (s\<lparr>timeouts := ts\<rparr>) = sent s"
  "sent (s\<lparr>now := n\<rparr>) = sent s"
  "sent (s\<lparr>nextTimer := k\<rparr>) = sent s"
  "sent (s\<lparr>debounceTimers := dt\<rparr>) = sent s"
  "sent (s\<lparr>listening := b\<rparr>) = sent s"
  "sent (s\<lparr>recordingStartTime := r\<rparr>) = sent s"
  "sent (s\<lparr>inputCallback := cb\<rparr>) = sent s"
  "sent (s\<lparr>cs_isRecording := b\<rparr>) = sent s"
  "sent (s\<lparr>cs_recordingStartTime := r\<rparr>) = sent s"
  by (simp_all add: sent_def)

lemma sent_for_updates [simp]:
  "sent_for e (s\<lparr>calls := c\<rparr>) = map snd (filter (\<lambda>c. fst c = e) c)"
  "sent_for e (s\<lparr>fieldValue := fv\<rparr>) = sent_for e s"
  "sent_for e (s\<lparr>lastRecordedValues := l\<rparr>) = sent_for e s"
  "sent_for e (s\<lparr>timeouts := ts\<rparr>) = sent_for e s"
  "sent_for e (s\<lparr>now := n\<rparr>) = sent_for e s"
  "sent_for e (s\<lparr>nextTimer := k\<rparr>) = sent_for e s"
  "sent_for e (s\<lparr>debounceTimers := dt\<rparr>) = sent_for e s"
  "sent_for e (s\<lparr>listening := b\<rparr>) = sent_for e s"
  "sent_for e (s\<lparr>recordingStartTime := r\<rparr>) = sent_for e s"
  "sent_for e (s\<lparr>inputCallback := cb\<rparr>) = sent_for e s"
  "sent_for e (s\<lparr>cs_isRecording := b\<rparr>) = sent_for e s"
  "sent_for e (s\<lparr>cs_recordingStartTime := r\<rparr>) = sent_for e s"
  by (simp_all add: sent_for_def)

lemma sent_fold [simp]: "map snd (calls s) = sent s"
  by (simp add: sent_def)

lemma sent_for_fold [simp]: "map snd (filter (\<lambda>c. fst c = e) (calls s)) = sent_for e s"
  by (simp add: sent_for_def)

lemma recordInputChange_frame:
  "recordingStartTime (snd (recordInputChange p e s)) = recordingStartTime s \<and>
   inputCallback (snd (recordInputChange p e s)) = inputCallback s \<and>
   debounceTimers (snd (recordInputChange p e s)) = debounceTimers s \<and>
   listening (snd (recordInputChange p e s)) = listening s \<and>
   now (snd (recordInputChange p e s)) = now s \<and>
   timeouts (snd (recordInputChange p e s)) = timeouts s \<and>
   nextTimer (snd (recordInputChange p e s)) = nextTimer s \<and>
   fieldValue (snd (recordInputChange p e s)) = fieldValue s \<and>
   cs_isRecording (snd (recordInputChange p e s)) = cs_isRecording s \<and>
   cs_recordingStartTime (snd (recordInputChange p e s)) = cs_recordingStartTime s"
  by (simp add: recordInputChange_def Let_def split: sum.splits prod.splits)

lemma recordInputChange_same_value:
  assumes "(if el_kind (field_of p e) = HTMLSelectElement then Inr (fieldValue s e, False)
            else getRecordableValue (doc p) (field_of p e) (fieldValue s e)) = Inr (v, sens)"
    and "lastRecordedValues s e = Some v"
  shows "recordInputChange p e s = (None, s)"
  using assms by (simp add: recordInputChange_def)

lemma recordInputChange_twice:
  "recordInputChange p e (snd (recordInputChange p e s)) = (None, snd (recordInputChange p e s))
   \<or> recordInputChange p e s = recordInputChange p e (snd (recordInputChange p e s))"
  by (auto simp: recordInputChange_def Let_def split: sum.splits prod.splits)

text \<open>
  Claim C8. When the value to record for an element (its value, masked if the field is
  sensitive) equals the last value recorded for it, \<open>recordInputChange\<close> calls no
  callback and changes nothing. Recording an element twice in succession leaves the
  state the first recording left: the second emits no message.
\<close>

theorem same_value_recorded_once:
  "((if el_kind (field_of p e) = HTMLSelectElement then Inr (fieldValue s e, False)
     else getRecordableValue (doc p) (field_of p e) (fieldValue s e)) = Inr (v, sens) \<and>
    lastRecordedValues s e = Some v \<longrightarrow> recordInputChange p e s = (None, s)) \<and>
   snd (recordInputChange p e (snd (recordInputChange p e s))) = snd (recordInputChange p e s)"
proof
  show "(if el_kind (field_of p e) = HTMLSelectElement then Inr (fieldValue s e, False)
     else getRecordableValue (doc p) (field_of p e) (fieldValue s e)) = Inr (v, sens) \<and>
    lastRecordedValues s e = Some v \<longrightarrow> recordInputChange p e s = (None, s)"
    using recordInputChange_same_value by blast
next
  from recordInputChange_twice [of p e s]
  show "snd (recordInputChange p e (snd (recordInputChange p e s))) = snd (recordInputChange p e s)"
    by auto
qed

text \<open>Recording field 0 again after \<open>user\<close> has been recorded for it.\<close>

theorem same_value_recorded_once_witness:
  "(if el_kind (field_of form_page 0) = HTMLSelectElement
    then Inr (fieldValue typed_user 0, False)
    else getRecordableValue (doc form_page) (field_of form_page 0) (fieldValue typed_user 0))
     = Inr (''user'', False) \<and>
   lastRecordedValues typed_user 0 = Some ''user'' \<and>
   sent typed_user = [search_msg ''user'' 1500] \<and>
   recordInputChange form_page 0 typed_user = (None, typed_user)"
proof -
  have h: "(if el_kind (field_of form_page 0) = HTMLSelectElement
    then Inr (fieldValue typed_user 0, False)
    else getRecordableValue (doc form_page) (field_of form_page 0) (fieldValue typed_user 0))
     = Inr (''user'', False) \<and> lastRecordedValues typed_user 0 = Some ''user''"
    by code_simp
  have m: "sent typed_user = [search_msg ''user'' 1500]"
    by code_simp
  from same_value_recorded_once [of form_page 0 typed_user "''user''" False] h m
  show ?thesis by blast
qed

lemma masked_when_sensitive:
  "isSensitiveField d f = Inr True \<Longrightarrow> getRecordableValue d f v = Inr (''********'', True)"
  by (simp add: getRecordableValue_def maskValue_def)

lemma sensitive_not_select:
  "isSensitiveField d f = Inr True \<Longrightarrow> el_kind f \<noteq> HTMLSelectElement"
  by (auto simp: isSensitiveField_def)

lemma recordInputChange_sensitive:
  assumes "isSensitiveField (doc p) (field_of p e) = Inr True"
  shows "recordInputChange p e s =
     (if recordingStartTime s = None \<or> inputCallback s = None then (None, s)
      else if lastRecordedValues s e = Some ''********'' then (None, s)
      else (case getElementInfo p e of
              Inl err \<Rightarrow> (Some err, s\<lparr>lastRecordedValues := (lastRecordedValues s)(e \<mapsto> ''********'')\<rparr>)
            | Inr elementInfo \<Rightarrow>
                (None, s\<lparr>lastRecordedValues := (lastRecordedValues s)(e \<mapsto> ''********''),
                         calls := calls s @
                           [(e, \<lparr> msg_element = elementInfo, msg_value = ''********'',
                              msg_isSensitive = True, msg_url = href p,
                              msg_timestamp = now s - the (recordingStartTime s) \<rparr>)]\<rparr>)))"
  using masked_when_sensitive [OF assms] sensitive_not_select [OF assms]
  by (simp add: recordInputChange_def Let_def split: sum.splits)

text \<open>
  Claim C6. For a field the classifier judges sensitive, the value to record is the
  placeholder \<open>********\<close> with the flag set, whatever the field's value is. Two runs of
  \<open>recordInputChange\<close> that differ only in the value typed into the field send the same
  messages and remember the same last values; a message it sends carries the
  placeholder and the flag; and the step the orchestrator records for such a message has
  the placeholder as \<open>inputValue\<close> and \<open>isSensitive\<close> set.
\<close>

theorem sensitive_value_never_recorded:
  assumes "isSensitiveField (doc p) (field_of p e) = Inr True"
  shows "getRecordableValue (doc p) (field_of p e) v1 = Inr (''********'', True) \<and>
         getRecordableValue (doc p) (field_of p e) v1 = getRecordableValue (doc p) (field_of p e) v2 \<and>
         sent (snd (recordInputChange p e (s\<lparr>fieldValue := (fieldValue s)(e := v1)\<rparr>)))
           = sent (snd (recordInputChange p e (s\<lparr>fieldValue := (fieldValue s)(e := v2)\<rparr>))) \<and>
         lastRecordedValues (snd (recordInputChange p e (s\<lparr>fieldValue := (fieldValue s)(e := v1)\<rparr>)))
           = lastRecordedValues (snd (recordInputChange p e (s\<lparr>fieldValue := (fieldValue s)(e := v2)\<rparr>))) \<and>
         (sent (snd (recordInputChange p e s)) = sent s \<or>
          (\<exists>m. sent (snd (recordInputChange p e s)) = sent s @ [m] \<and>
               msg_value m = ''********'' \<and> msg_isSensitive m)) \<and>
         (\<forall>(bg :: bg_state) (cs :: RecordingSession) sender ev (m :: InputEventMessage).
            currentSession bg = Some cs \<and> isRecording cs \<and> truthy_num sender \<and>
            msg_value m = ''********'' \<and> msg_isSensitive m \<longrightarrow>
            (\<exists>st cs'. onMessage ev (INPUT_EVENT m) sender bg
                 = (Some (StepResponse True (Some st)), bg\<lparr>currentSession := Some cs'\<rparr>) \<and>
               steps cs' = steps cs @ [st] \<and>
               inputValue st = Some ''********'' \<and> isSensitive st = Some True))"
proof (intro conjI allI impI)
  show "getRecordableValue (doc p) (field_of p e) v1 = Inr (''********'', True)"
    by (rule masked_when_sensitive [OF assms])
  show "getRecordableValue (doc p) (field_of p e) v1 = getRecordableValue (doc p) (field_of p e) v2"
    by (simp add: masked_when_sensitive [OF assms])
  show "sent (snd (recordInputChange p e (s\<lparr>fieldValue := (fieldValue s)(e := v1)\<rparr>)))
           = sent (snd (recordInputChange p e (s\<lparr>fieldValue := (fieldValue s)(e := v2)\<rparr>)))"
    by (simp add: recordInputChange_sensitive [OF assms] split: sum.splits)
  show "lastRecordedValues (snd (recordInputChange p e (s\<lparr>fieldValue := (fieldValue s)(e := v1)\<rparr>)))
           = lastRecordedValues (snd (recordInputChange p e (s\<lparr>fieldValue := (fieldValue s)(e := v2)\<rparr>)))"
    by (simp add: recordInputChange_sensitive [OF assms] split: sum.splits)
  show "sent (snd (recordInputChange p e s)) = sent s \<or>
          (\<exists>m. sent (snd (recordInputChange p e s)) = sent s @ [m] \<and>
               msg_value m = ''********'' \<and> msg_isSensitive m)"
    by (simp add: recordInputChange_sensitive [OF assms] split: sum.splits)
next
  fix bg :: bg_state and cs :: RecordingSession and sender ev and m :: InputEventMessage
  assume a: "currentSession bg = Some cs \<and> isRecording cs \<and> truthy_num sender \<and>
            msg_value m = ''********'' \<and> msg_isSensitive m"
  let ?d = "\<lparr> data_timestamp = Some (msg_timestamp m), data_element = Some (msg_element m),
      data_inputValue = Some (msg_value m), data_isSensitive = Some (msg_isSensitive m),
      data_url = Some (msg_url m) \<rparr>"
  from a addStep_recording [of bg cs ev Input ?d "the sender"]
  obtain st cs' where r: "addStep ev Input ?d (the sender) bg
        = (Some st, bg\<lparr>currentSession := Some cs'\<rparr>)"
      "steps cs' = steps cs @ [st]" "inputValue st = data_inputValue ?d"
      "isSensitive st = data_isSensitive ?d"
    by blast
  have "onMessage ev (INPUT_EVENT m) sender bg
          = (Some (StepResponse True (Some st)), bg\<lparr>currentSession := Some cs'\<rparr>)"
    using a r(1) by (simp add: onMessage_def)
  with r(2-4) a
  show "\<exists>st cs'. onMessage ev (INPUT_EVENT m) sender bg
                 = (Some (StepResponse True (Some st)), bg\<lparr>currentSession := Some cs'\<rparr>) \<and>
               steps cs' = steps cs @ [st] \<and>
               inputValue st = Some ''********'' \<and> isSensitive st = Some True"
    by auto
qed

text \<open>The password field of the example page, with two different passwords.\<close>

theorem sensitive_value_never_recorded_witness:
  "isSensitiveField (doc form_page) (field_of form_page 1) = Inr True \<and>
   getRecordableValue (doc form_page) (field_of form_page 1) ''hunter2'' = Inr (''********'', True) \<and>
   getRecordableValue (doc form_page) (field_of form_page 1) ''hunter2''
     = getRecordableValue (doc form_page) (field_of form_page 1) ''correct horse'' \<and>
   sent (snd (recordInputChange form_page 1 (recording\<lparr>fieldValue := (fieldValue recording)(1 := ''hunter2'')\<rparr>)))
     = [pw_msg 0] \<and>
   sent (snd (recordInputChange form_page 1 (recording\<lparr>fieldValue := (fieldValue recording)(1 := ''correct horse'')\<rparr>)))
     = [pw_msg 0] \<and>
   map (\<lambda>st. (inputValue st, isSensitive st))
     (steps (the (currentSession (snd (onMessage ex_env (INPUT_EVENT (pw_msg 0)) (Some 1) ex_state)))))
     = [(Some ''********'', Some True)]"
proof -
  have h: "isSensitiveField (doc form_page) (field_of form_page 1) = Inr True"
    by code_simp
  have c: "sent (snd (recordInputChange form_page 1 (recording\<lparr>fieldValue := (fieldValue recording)(1 := ''hunter2'')\<rparr>)))
     = [pw_msg 0]"
    "map (\<lambda>st. (inputValue st, isSensitive st))
     (steps (the (currentSession (snd (onMessage ex_env (INPUT_EVENT (pw_msg 0)) (Some 1) ex_state)))))
     = [(Some ''********'', Some True)]"
    by code_simp+
  note t = sensitive_value_never_recorded [OF h, of "''hunter2''" "''correct horse''" recording]
  from t have 1: "getRecordableValue (doc form_page) (field_of form_page 1) ''hunter2'' = Inr (''********'', True)"
    by (rule conjunct1)
  from t have 2: "getRecordableValue (doc form_page) (field_of form_page 1) ''hunter2''
     = getRecordableValue (doc form_page) (field_of form_page 1) ''correct horse''"
    by blast
  from t have 3: "sent (snd (recordInputChange form_page 1 (recording\<lparr>fieldValue := (fieldValue recording)(1 := ''hunter2'')\<rparr>)))
     = sent (snd (recordInputChange form_page 1 (recording\<lparr>fieldValue := (fieldValue recording)(1 := ''correct horse'')\<rparr>)))"
    by blast
  from h 1 2 3 c show ?thesis
    by (simp only: simp_thms)
qed

lemma recordInputChange_flushable:
  assumes act: "recordingStartTime s = Some t0" "inputCallback s = Some c"
    and fl: "flushable p s e"
  shows "fst (recordInputChange p e s) = None \<and>
         prefix (sent s) (sent (snd (recordInputChange p e s))) \<and>
         value_was_sent p s e (snd (recordInputChange p e s)) \<and>
         (\<forall>e'. flushable p s e' \<longrightarrow> flushable p (snd (recordInputChange p e s)) e')"
proof -
  from fl obtain v sens info where
    k: "el_kind (field_of p e) \<noteq> HTMLSelectElement"
    and rv: "getRecordableValue (doc p) (field_of p e) (fieldValue s e) = Inr (v, sens)"
    and inf: "getElementInfo p e = Inr info"
    by (auto simp: flushable_def split: sum.splits)
  show ?thesis
  proof (cases "lastRecordedValues s e = Some v")
    case True
    with k rv have same: "recordInputChange p e s = (None, s)"
      by (simp add: recordInputChange_def)
    from fl True rv have "value_was_sent p s e s"
      by (simp add: flushable_def value_was_sent_def)
    with same show ?thesis by simp
  next
    case False
    let ?m = "\<lparr> msg_element = info, msg_value = v, msg_isSensitive = sens, msg_url = href p,
                msg_timestamp = now s - t0 \<rparr>"
    let ?s' = "s\<lparr>lastRecordedValues := (lastRecordedValues s)(e \<mapsto> v),
                  calls := calls s @ [(e, ?m)]\<rparr>"
    from False k rv inf act have r: "recordInputChange p e s = (None, ?s')"
      by (simp add: recordInputChange_def Let_def)
    have sent: "value_was_sent p s e ?s'"
      using rv inf by (simp add: value_was_sent_def)
    have keep: "flushable p ?s' e'" if "flushable p s e'" for e'
    proof (cases "e' = e")
      case True
      with that rv inf show ?thesis
        by (simp add: flushable_def)
    next
      case False
      with that show ?thesis
        by (auto simp: flushable_def list_ex_iff split: option.splits sum.splits)
    qed
    from r sent keep show ?thesis by simp
  qed
qed

lemma clearTimeout_flushable [simp]: "flushable p (clearTimeout t s) e = flushable p s e"
  by (simp add: flushable_def clearTimeout_def cong: option.case_cong)

lemma value_was_sent_clearTimeout [simp]:
  "value_was_sent p (clearTimeout t s) e s' = value_was_sent p s e s'"
  by (simp add: value_was_sent_def clearTimeout_def)

lemma value_was_sent_mono:
  assumes "value_was_sent p s e s1" and "prefix (sent s1) (sent s2)"
  shows "value_was_sent p s e s2"
proof -
  from assms(2) have "set (sent s1) \<subseteq> set (sent s2)"
    by (rule set_mono_prefix)
  with assms(1) show ?thesis
    by (auto simp: value_was_sent_def list_ex_iff split: sum.splits)
qed

lemma value_was_sent_same_field:
  "fieldValue s1 = fieldValue s \<Longrightarrow> value_was_sent p s1 e s' = value_was_sent p s e s'"
  by (simp add: value_was_sent_def)

lemma flush_entries_flushable:
  assumes "recordingStartTime s = Some t0" and "inputCallback s = Some c"
    and "\<forall>(e, t) \<in> set es. flushable p s e"
  shows "fst (flush_entries p es s) = None \<and>
         prefix (sent s) (sent (snd (flush_entries p es s))) \<and>
         (\<forall>(e, t) \<in> set es. value_was_sent p s e (snd (flush_entries p es s))) \<and>
         timeouts (snd (flush_entries p es s))
           = filter (\<lambda>x. fst x \<notin> snd ` set es) (timeouts s)"
  using assms
proof (induction es arbitrary: s)
  case Nil
  then show ?case by simp
next
  case (Cons x es)
  obtain e t where x: "x = (e, t)" by (cases x)
  let ?s1 = "clearTimeout t s"
  let ?s2 = "snd (recordInputChange p e ?s1)"
  from Cons.prems x have fe: "flushable p ?s1 e" by simp
  from Cons.prems have act1: "recordingStartTime ?s1 = Some t0" "inputCallback ?s1 = Some c"
    by (simp_all add: clearTimeout_def)
  note step = recordInputChange_flushable [OF act1 fe]
  from fe have kind: "el_kind (field_of p e) = HTMLInputElement \<or>
      el_kind (field_of p e) = HTMLTextAreaElement"
    by (simp add: flushable_def)
  have unfold: "flush_entries p (x # es) s = flush_entries p es ?s2"
    using x kind step by (auto simp: Let_def split: prod.splits option.splits)
  have fr: "recordingStartTime ?s2 = Some t0" "inputCallback ?s2 = Some c"
    "fieldValue ?s2 = fieldValue s" "timeouts ?s2 = timeouts ?s1"
    using recordInputChange_frame [of p e ?s1] act1 by (simp_all add: clearTimeout_def)
  have rest: "\<forall>(e', t') \<in> set es. flushable p ?s2 e'"
    using Cons.prems(3) step by auto
  note ih = Cons.IH [OF fr(1,2) rest]
  let ?s' = "snd (flush_entries p es ?s2)"
  have p1: "prefix (sent s) (sent ?s')"
  proof -
    have "sent ?s1 = sent s" by (simp add: clearTimeout_def)
    with step have "prefix (sent s) (sent ?s2)" by simp
    with ih show ?thesis by (blast intro: prefix_order.trans)
  qed
  have p2: "value_was_sent p s e ?s'"
  proof -
    from step have "value_was_sent p s e ?s2" by simp
    with ih show ?thesis by (blast intro: value_was_sent_mono)
  qed
  have p3: "\<forall>(e', t') \<in> set es. value_was_sent p s e' ?s'"
    using ih value_was_sent_same_field [OF fr(3)] by auto
  have p4: "timeouts ?s' = filter (\<lambda>y. fst y \<notin> snd ` set (x # es)) (timeouts s)"
  proof -
    from ih have "timeouts ?s' = filter (\<lambda>x. fst x \<notin> snd ` set es) (timeouts ?s2)"
      by simp
    also have "timeouts ?s2 = filter (\<lambda>x. fst x \<noteq> t) (timeouts s)"
      using fr(4) by (simp add: clearTimeout_def)
    finally show ?thesis
      using x by (auto intro!: filter_cong)
  qed
  from ih p1 p2 p3 p4 show ?case
    unfolding unfold using x by simp
qed

text \<open>
  Only fields whose edits are debounced ever get an entry in \<open>debounceTimers\<close>, so the
  entries the flush meets are inputs and textareas.
\<close>

lemma handleInputEvent_keys:
  assumes "e' \<in> fst ` set (debounceTimers (snd (handleInputEvent p e s)))"
  shows "e' \<in> fst ` set (debounceTimers s) \<or> (e' = e \<and> debounced_field (doc p) (field_of p e))"
proof -
  have rec: "debounceTimers (snd (recordInputChange p e s1)) = debounceTimers s1" for s1
    using recordInputChange_frame [of p e s1] by simp
  have clr: "debounceTimers (case map_of (debounceTimers s) e of
                None \<Rightarrow> s
              | Some existingTimer \<Rightarrow>
                  if existingTimer \<noteq> 0 then clearTimeout existingTimer s else s)
             = debounceTimers s"
    by (simp add: clearTimeout_def split: option.splits)
  from assms show ?thesis
    by (cases "el_kind (field_of p e)")
      (auto simp: handleInputEvent_def debounced_field_def setTimeout_def Let_def rec clr
        dom_update split: if_splits prod.splits)
qed

section \<open>Debouncing\<close>

lemma earliest_mem: "earliest ts = Some z \<Longrightarrow> z \<in> set ts"
  by (induction ts arbitrary: z) (auto split: option.splits if_splits)

lemma earliest_min: "earliest ts = Some z \<Longrightarrow> x \<in> set ts \<Longrightarrow> fst (snd z) \<le> fst (snd x)"
proof (induction ts arbitrary: z x)
  case Nil
  then show ?case by simp
next
  case (Cons y ts)
  show ?case
  proof (cases "earliest ts")
    case None
    then have "ts = []" by (cases ts) (auto split: option.splits if_splits)
    with Cons.prems None show ?thesis by simp
  next
    case (Some w)
    from Cons.IH [OF Some] have le: "u \<in> set ts \<Longrightarrow> fst (snd w) \<le> fst (snd u)" for u .
    from Cons.prems Some show ?thesis
      using le by (cases "fst (snd y) \<le> fst (snd w)") (auto dest: le)
  qed
qed

lemma earliest_None: "earliest ts = None \<longleftrightarrow> ts = []"
  by (cases ts) (auto split: option.splits if_splits)

lemma next_due_mem: "next_due t ts = Some z \<Longrightarrow> z \<in> set ts \<and> fst (snd z) \<le> t"
  using earliest_mem [of "filter (\<lambda>x. fst (snd x) \<le> t) ts" z] by (simp add: next_due_def)

lemma next_due_min:
  "next_due t ts = Some z \<Longrightarrow> x \<in> set ts \<Longrightarrow> fst (snd x) \<le> t \<Longrightarrow> fst (snd z) \<le> fst (snd x)"
  using earliest_min [of "filter (\<lambda>x. fst (snd x) \<le> t) ts" z x] by (simp add: next_due_def)

lemma next_due_None: "next_due t ts = None \<longleftrightarrow> (\<forall>x \<in> set ts. t < fst (snd x))"
  by (auto simp: next_due_def earliest_None filter_empty_conv not_le)

lemma run_until_none_due:
  "next_due t (timeouts s) = None \<Longrightarrow> run_until p t s = s\<lparr>now := max (now s) t\<rparr>"
  by (subst run_until.simps) simp

lemma run_until_due:
  "next_due t (timeouts s) = Some (i, due, e) \<Longrightarrow>
   run_until p t s =
     run_until p t (snd (timer_fired p e
        (s\<lparr>now := max (now s) due, timeouts := filter (\<lambda>x. fst x \<noteq> i) (timeouts s)\<rparr>)))"
  by (subst run_until.simps) simp

lemma timer_fired_frame:
  "timeouts (snd (timer_fired p e s)) = timeouts s \<and> now (snd (timer_fired p e s)) = now s \<and>
   nextTimer (snd (timer_fired p e s)) = nextTimer s"
  using recordInputChange_frame [of p e s]
  by (auto simp: timer_fired_def split: prod.splits option.splits)

lemma kept_for_refl [simp]: "kept_for e s s"
  by (simp add: kept_for_def)

lemma kept_for_trans: "kept_for e s s1 \<Longrightarrow> kept_for e s1 s2 \<Longrightarrow> kept_for e s s2"
  by (simp add: kept_for_def)

lemma kept_for_fire [simp]: "kept_for e s (s\<lparr>now := n, timeouts := ts\<rparr>)"
  by (simp add: kept_for_def)

lemma kept_for_now [simp]: "kept_for e s (s\<lparr>now := n\<rparr>)"
  by (simp add: kept_for_def)

lemma recordInputChange_other:
  assumes "e' \<noteq> e"
  shows "kept_for e s (snd (recordInputChange p e' s))"
  using assms
  by (auto simp: kept_for_def recordInputChange_def Let_def split: sum.splits prod.splits)

lemma timer_fired_other:
  assumes "e' \<noteq> e"
  shows "kept_for e s (snd (timer_fired p e' s)) \<and>
         map_of (debounceTimers (snd (timer_fired p e' s))) e = map_of (debounceTimers s) e"
proof -
  from recordInputChange_other [OF assms, of s p] recordInputChange_frame [of p e' s] assms
  show ?thesis
    by (cases "recordInputChange p e' s")
      (auto simp: timer_fired_def kept_for_def delete_conv' split: option.splits)
qed

lemma now_run_until: "now (run_until p t s) = max (now s) t"
proof (induction p t s rule: run_until.induct)
  case (1 p t s)
  show ?case
  proof (cases "next_due t (timeouts s)")
    case None
    then show ?thesis by (simp add: run_until_none_due)
  next
    case (Some z)
    obtain i due e where z: "z = (i, due, e)" by (cases z)
    from next_due_mem [OF Some] z have due: "due \<le> t" by simp
    note nd = Some [unfolded z]
    from "1.IH" [OF nd refl refl] timer_fired_frame due show ?thesis
      by (simp add: run_until_due [OF nd])
  qed
qed

lemma no_timer_for_subset:
  assumes "no_timer_for e s" and "nextTimer s' = nextTimer s"
    and "set (timeouts s') \<subseteq> set (timeouts s)"
    and "map_of (debounceTimers s') e = map_of (debounceTimers s) e"
  shows "no_timer_for e s'"
  using assms by (auto simp: no_timer_for_def list_all_iff)

lemma run_until_no_timer:
  assumes "no_timer_for e s"
  shows "no_timer_for e (run_until p t s) \<and> kept_for e s (run_until p t s)"
  using assms
proof (induction p t s rule: run_until.induct)
  case (1 p t s)
  show ?case
  proof (cases "next_due t (timeouts s)")
    case None
    with "1.prems" show ?thesis
      by (simp add: run_until_none_due no_timer_for_def)
  next
    case (Some z)
    obtain i due e' where z: "z = (i, due, e')" by (cases z)
    note nd = Some [unfolded z]
    from next_due_mem [OF nd] have mem: "(i, due, e') \<in> set (timeouts s)" by simp
    with "1.prems" have ne: "e' \<noteq> e"
      by (auto simp: no_timer_for_def list_all_iff)
    let ?s1 = "s\<lparr>now := max (now s) due, timeouts := filter (\<lambda>x. fst x \<noteq> i) (timeouts s)\<rparr>"
    let ?s2 = "snd (timer_fired p e' ?s1)"
    from timer_fired_other [OF ne, of ?s1 p] have k: "kept_for e s ?s2"
      and dt: "map_of (debounceTimers ?s2) e = map_of (debounceTimers s) e"
      by (simp_all add: kept_for_def)
    from timer_fired_frame [of p e' ?s1] have fr: "nextTimer ?s2 = nextTimer s"
      "set (timeouts ?s2) \<subseteq> set (timeouts s)"
      by auto
    from no_timer_for_subset [OF "1.prems" fr dt] have n2: "no_timer_for e ?s2" .
    from "1.IH" [OF nd refl refl n2]
    have ih: "no_timer_for e (run_until p t ?s2)" "kept_for e ?s2 (run_until p t ?s2)"
      by simp_all
    have "run_until p t s = run_until p t ?s2"
      by (rule run_until_due [OF nd])
    with ih(1) kept_for_trans [OF k ih(2)] show ?thesis
      by simp
  qed
qed

lemma timer_for_only:
  assumes "timer_for e s due" and "x \<in> set (timeouts s)"
    and "fst x = the (map_of (debounceTimers s) e) \<or> snd (snd x) = e"
  shows "x = (the (map_of (debounceTimers s) e), due, e)"
proof -
  from assms(1) obtain t where t: "map_of (debounceTimers s) e = Some t"
    and f: "filter (\<lambda>x. fst x = t \<or> snd (snd x) = e) (timeouts s) = [(t, due, e)]"
    by (auto simp: timer_for_def split: option.splits)
  from assms(2,3) t have "x \<in> set (filter (\<lambda>x. fst x = t \<or> snd (snd x) = e) (timeouts s))"
    by simp
  with f t show ?thesis by simp
qed

lemma timer_for_mem:
  assumes "timer_for e s due"
  shows "(the (map_of (debounceTimers s) e), due, e) \<in> set (timeouts s)"
proof -
  from assms obtain t where t: "map_of (debounceTimers s) e = Some t"
    and f: "filter (\<lambda>x. fst x = t \<or> snd (snd x) = e) (timeouts s) = [(t, due, e)]"
    by (auto simp: timer_for_def split: option.splits)
  have "(t, due, e) \<in> set (filter (\<lambda>x. fst x = t \<or> snd (snd x) = e) (timeouts s))"
    by (simp add: f)
  with t show ?thesis by simp
qed

lemma timer_for_fire_other:
  assumes "timer_for e s due" and "nextTimer s' = nextTimer s"
    and "timeouts s' = filter (\<lambda>x. fst x \<noteq> i) (timeouts s)"
    and "map_of (debounceTimers s') e = map_of (debounceTimers s) e"
    and "i \<noteq> the (map_of (debounceTimers s) e)"
  shows "timer_for e s' due"
proof -
  from assms(1) obtain t where t: "map_of (debounceTimers s) e = Some t" "t \<noteq> 0"
    and f: "filter (\<lambda>x. fst x = t \<or> snd (snd x) = e) (timeouts s) = [(t, due, e)]"
    and b: "list_all (\<lambda>x. fst x < nextTimer s) (timeouts s)"
    by (auto simp: timer_for_def split: option.splits)
  have "filter (\<lambda>x. fst x = t \<or> snd (snd x) = e) (timeouts s') =
        filter (\<lambda>x. fst x \<noteq> i) (filter (\<lambda>x. fst x = t \<or> snd (snd x) = e) (timeouts s))"
    by (simp add: assms(3) conj_commute)
  also have "\<dots> = [(t, due, e)]"
    using assms(5) t by (simp add: f)
  finally show ?thesis
    using t b assms(2,3,4) by (simp add: timer_for_def list_all_iff)
qed

lemma run_until_keeps_timer:
  assumes "timer_for e s due" and "t < due"
  shows "timer_for e (run_until p t s) due \<and> kept_for e s (run_until p t s)"
  using assms
proof (induction p t s rule: run_until.induct)
  case (1 p t s)
  show ?case
  proof (cases "next_due t (timeouts s)")
    case None
    with "1.prems"(1) show ?thesis
      by (auto simp: run_until_none_due timer_for_def split: option.splits)
  next
    case (Some z)
    obtain i d e' where z: "z = (i, d, e')" by (cases z)
    note nd = Some [unfolded z]
    from next_due_mem [OF nd] have mem: "(i, d, e') \<in> set (timeouts s)" and d: "d \<le> t"
      by simp_all
    have ne: "i \<noteq> the (map_of (debounceTimers s) e) \<and> e' \<noteq> e"
    proof (rule ccontr)
      assume "\<not> ?thesis"
      then have "fst (i, d, e') = the (map_of (debounceTimers s) e) \<or> snd (snd (i, d, e')) = e"
        by simp
      from timer_for_only [OF "1.prems"(1) mem this] have "d = due"
        by simp
      with d "1.prems"(2) show False
        by simp
    qed
    then have ne1: "i \<noteq> the (map_of (debounceTimers s) e)" and ne2: "e' \<noteq> e"
      by simp_all
    let ?s1 = "s\<lparr>now := max (now s) d, timeouts := filter (\<lambda>x. fst x \<noteq> i) (timeouts s)\<rparr>"
    let ?s2 = "snd (timer_fired p e' ?s1)"
    from timer_fired_other [OF ne2, of ?s1 p] have k: "kept_for e s ?s2"
      and dt: "map_of (debounceTimers ?s2) e = map_of (debounceTimers s) e"
      by (simp_all add: kept_for_def)
    from timer_fired_frame [of p e' ?s1] have fr: "nextTimer ?s2 = nextTimer s"
      "timeouts ?s2 = filter (\<lambda>x. fst x \<noteq> i) (timeouts s)"
      by auto
    from timer_for_fire_other [OF "1.prems"(1) fr dt ne1] have t2: "timer_for e ?s2 due" .
    from "1.IH" [OF nd refl refl t2 "1.prems"(2)]
    have ih: "timer_for e (run_until p t ?s2) due" "kept_for e ?s2 (run_until p t ?s2)"
      by simp_all
    have "run_until p t s = run_until p t ?s2"
      by (rule run_until_due [OF nd])
    with ih(1) kept_for_trans [OF k ih(2)] show ?thesis
      by simp
  qed
qed

lemma recordInputChange_emits:
  assumes "recordingStartTime s = Some t0" and "inputCallback s = Some c"
    and "el_kind (field_of p e) \<noteq> HTMLSelectElement"
    and "getRecordableValue (doc p) (field_of p e) (fieldValue s e) = Inr (rv, sens)"
    and "getElementInfo p e = Inr info"
  shows "fst (recordInputChange p e s) = None \<and>
         sent_for e (snd (recordInputChange p e s)) =
           sent_for e s @ (if lastRecordedValues s e = Some rv then []
                           else [\<lparr> msg_element = info, msg_value = rv, msg_isSensitive = sens,
                                   msg_url = href p, msg_timestamp = now s - t0 \<rparr>])"
  using assms by (simp add: recordInputChange_def Let_def)

lemma timer_for_cleared:
  assumes "timer_for e s due" and "nextTimer s' = nextTimer s"
    and "timeouts s' = filter (\<lambda>x. fst x \<noteq> the (map_of (debounceTimers s) e)) (timeouts s)"
  shows "0 < nextTimer s' \<and> (\<forall>x \<in> set (timeouts s'). snd (snd x) \<noteq> e \<and> fst x < nextTimer s')"
proof -
  let ?t = "the (map_of (debounceTimers s) e)"
  from assms(1) have b: "\<forall>x \<in> set (timeouts s). fst x < nextTimer s"
    by (auto simp: timer_for_def list_all_iff split: option.splits)
  from timer_for_mem [OF assms(1)] b have "?t < nextTimer s"
    by fastforce
  then have pos: "0 < nextTimer s'"
    using assms(2) by simp
  have "snd (snd x) \<noteq> e \<and> fst x < nextTimer s'" if x: "x \<in> set (timeouts s')" for x
  proof -
    from x assms(3) have m: "x \<in> set (timeouts s)" and n: "fst x \<noteq> ?t"
      by simp_all
    have "snd (snd x) \<noteq> e"
    proof
      assume "snd (snd x) = e"
      then have "fst x = ?t \<or> snd (snd x) = e" by simp
      from timer_for_only [OF assms(1) m this] n show False by simp
    qed
    with b m assms(2) show ?thesis by simp
  qed
  with pos show ?thesis by blast
qed

lemma no_timer_for_after:
  assumes "0 < nextTimer s \<and> (\<forall>x \<in> set (timeouts s). snd (snd x) \<noteq> e \<and> fst x < nextTimer s)"
    and "map_of (debounceTimers s) e = None"
  shows "no_timer_for e s"
  using assms by (simp add: no_timer_for_def list_all_iff)

lemma run_until_fires:
  assumes "timer_for e s due" and "due \<le> t" and "now s \<le> due"
    and "recordingStartTime s = Some t0" and "inputCallback s = Some c"
    and "el_kind (field_of p e) \<noteq> HTMLSelectElement"
    and "getRecordableValue (doc p) (field_of p e) (fieldValue s e) = Inr (rv, sens)"
    and "getElementInfo p e = Inr info"
  shows "sent_for e (run_until p t s) =
           sent_for e s @ (if lastRecordedValues s e = Some rv then []
                           else [\<lparr> msg_element = info, msg_value = rv, msg_isSensitive = sens,
                                   msg_url = href p, msg_timestamp = due - t0 \<rparr>])"
  using assms
proof (induction p t s rule: run_until.induct)
  case (1 p t s)
  let ?te = "the (map_of (debounceTimers s) e)"
  let ?out = "\<lambda>s. sent_for e s @ (if lastRecordedValues s e = Some rv then []
                           else [\<lparr> msg_element = info, msg_value = rv, msg_isSensitive = sens,
                                   msg_url = href p, msg_timestamp = due - t0 \<rparr>])"
  note tf = "1.prems"(1)
  from timer_for_mem [OF tf] have mem_e: "(?te, due, e) \<in> set (timeouts s)" .
  show ?case
  proof (cases "next_due t (timeouts s)")
    case None
    with mem_e "1.prems"(2) show ?thesis
      by (fastforce simp: next_due_None)
  next
    case (Some z)
    obtain i d e' where z: "z = (i, d, e')" by (cases z)
    note nd = Some [unfolded z]
    from next_due_mem [OF nd] have mem: "(i, d, e') \<in> set (timeouts s)" and d: "d \<le> t"
      by simp_all
    from next_due_min [OF nd mem_e] "1.prems"(2) have dle: "d \<le> due"
      by simp
    let ?s1 = "s\<lparr>now := max (now s) d, timeouts := filter (\<lambda>x. fst x \<noteq> i) (timeouts s)\<rparr>"
    let ?s2 = "snd (timer_fired p e' ?s1)"
    have run: "run_until p t s = run_until p t ?s2"
      by (rule run_until_due [OF nd])
    note fr = timer_fired_frame [of p e' ?s1]
    show ?thesis
    proof (cases "i = ?te \<or> e' = e")
      case True
      then have "fst (i, d, e') = ?te \<or> snd (snd (i, d, e')) = e" by simp
      from timer_for_only [OF tf mem this] have eq: "i = ?te" "d = due" "e' = e"
        by simp_all
      have n1: "now ?s1 = due"
        using "1.prems"(3) eq by simp
      have h: "recordingStartTime ?s1 = Some t0" "inputCallback ?s1 = Some c"
        "getRecordableValue (doc p) (field_of p e) (fieldValue ?s1 e) = Inr (rv, sens)"
        using "1.prems" by simp_all
      note em = recordInputChange_emits [OF h(1,2) "1.prems"(6) h(3) "1.prems"(8)]
      obtain r where rc: "recordInputChange p e ?s1 = (None, r)"
        using em by (cases "recordInputChange p e ?s1") auto
      from em rc n1 have sr: "sent_for e r = ?out s"
        by simp
      from recordInputChange_frame [of p e ?s1] rc
      have rfr: "nextTimer r = nextTimer s" "timeouts r = filter (\<lambda>x. fst x \<noteq> i) (timeouts s)"
        by simp_all
      have s2: "?s2 = r\<lparr>debounceTimers := AList.delete e (debounceTimers r)\<rparr>"
        using rc eq by (simp add: timer_fired_def)
      have "nextTimer ?s2 = nextTimer s"
        "timeouts ?s2 = filter (\<lambda>x. fst x \<noteq> ?te) (timeouts s)"
        using fr eq(1) by simp_all
      from timer_for_cleared [OF tf this]
      have "no_timer_for e ?s2"
        by (rule no_timer_for_after) (simp add: s2 delete_conv')
      from run_until_no_timer [OF this, of p t] have "kept_for e ?s2 (run_until p t ?s2)"
        by simp
      then have "sent_for e (run_until p t ?s2) = sent_for e ?s2"
        by (simp add: kept_for_def)
      also have "\<dots> = sent_for e r"
        by (simp add: s2)
      finally show ?thesis
        by (simp add: run sr)
    next
      case False
      then have ne1: "i \<noteq> ?te" and ne2: "e' \<noteq> e" by simp_all
      from timer_fired_other [OF ne2, of ?s1 p] have k: "kept_for e ?s1 ?s2"
        and dt: "map_of (debounceTimers ?s2) e = map_of (debounceTimers s) e"
        by simp_all
      from fr have fr2: "nextTimer ?s2 = nextTimer s"
        "timeouts ?s2 = filter (\<lambda>x. fst x \<noteq> i) (timeouts s)"
        by auto
      from timer_for_fire_other [OF tf fr2 dt ne1] have t2: "timer_for e ?s2 due" .
      from fr dle "1.prems"(3) have n2: "now ?s2 \<le> due"
        by simp
      from k "1.prems" have h: "recordingStartTime ?s2 = Some t0" "inputCallback ?s2 = Some c"
        "getRecordableValue (doc p) (field_of p e) (fieldValue ?s2 e) = Inr (rv, sens)"
        by (simp_all add: kept_for_def)
      from "1.IH" [OF nd refl refl t2 "1.prems"(2) n2 h(1,2) "1.prems"(6) h(3) "1.prems"(8)]
      have "sent_for e (run_until p t ?s2) = ?out ?s2" .
      also from k have "?out ?s2 = ?out s"
        by (simp add: kept_for_def)
      finally show ?thesis
        by (simp add: run)
    qed
  qed
qed

lemma input_event_arms:
  assumes "listening s" and "recordingStartTime s = Some t0"
    and "debounced_field (doc p) (field_of p e)"
    and "no_timer_for e s \<or> (\<exists>d. timer_for e s d)"
  shows "timer_for e (input_event p e v s) (now s + INPUT_DEBOUNCE_MS) \<and>
         sent_for e (input_event p e v s) = sent_for e s \<and>
         lastRecordedValues (input_event p e v s) e = lastRecordedValues s e \<and>
         fieldValue (input_event p e v s) e = v \<and>
         recordingStartTime (input_event p e v s) = recordingStartTime s \<and>
         inputCallback (input_event p e v s) = inputCallback s \<and>
         listening (input_event p e v s) \<and>
         now (input_event p e v s) = now s"
proof -
  define s1 where "s1 = s\<lparr>fieldValue := (fieldValue s)(e := v)\<rparr>"
  define s2 where "s2 = (case map_of (debounceTimers s) e of
                           None \<Rightarrow> s1
                         | Some existingTimer \<Rightarrow>
                             if existingTimer \<noteq> 0 then clearTimeout existingTimer s1 else s1)"
  define n where "n = nextTimer s"
  define s3 where "s3 = s2\<lparr>timeouts := timeouts s2 @ [(n, now s + INPUT_DEBOUNCE_MS, e)],
                            nextTimer := n + 1,
                            debounceTimers := AList.update e n (debounceTimers s)\<rparr>"
  have fr2: "nextTimer s2 = n" "now s2 = now s" "debounceTimers s2 = debounceTimers s"
    "sent_for e s2 = sent_for e s" "lastRecordedValues s2 = lastRecordedValues s"
    "fieldValue s2 e = v" "recordingStartTime s2 = recordingStartTime s"
    "inputCallback s2 = inputCallback s" "listening s2 = listening s"
    by (simp_all add: s2_def s1_def n_def clearTimeout_def split: option.splits)
  from assms(3) have ign: "\<not> el_ignored (field_of p e)"
    by (simp add: debounced_field_def)
  from assms(3) consider
      (textarea) "el_kind (field_of p e) = HTMLTextAreaElement"
    | (input) "el_kind (field_of p e) = HTMLInputElement"
        "toLowerCase (doc p) (el_type (field_of p e))
           \<notin> set [''hidden'', ''submit'', ''button'', ''reset'', ''image'']"
        "toLowerCase (doc p) (el_type (field_of p e)) \<notin> set [''checkbox'', ''radio'']"
    by (auto simp: debounced_field_def)
  note kinds = this
  have hs1: "listening s1" "recordingStartTime s1 = Some t0"
    "debounceTimers s1 = debounceTimers s" "nextTimer s1 = nextTimer s" "now s1 = now s"
    using assms(1,2) by (simp_all add: s1_def)
  from kinds have "handleInputEvent p e s1 = (None, s3)"
  proof cases
    case textarea
    with ign hs1 show ?thesis
      by (simp add: handleInputEvent_def setTimeout_def Let_def s3_def
          s2_def n_def clearTimeout_def split: option.splits)
  next
    case input
    with ign hs1 show ?thesis
      by (simp add: handleInputEvent_def setTimeout_def Let_def s3_def
          s2_def n_def clearTimeout_def split: option.splits)
  qed
  moreover have "input_event p e v s = snd (handleInputEvent p e s1)"
    using assms(1) by (simp add: input_event_def s1_def Let_def)
  ultimately have ev: "input_event p e v s = s3"
    by simp
  have clean: "0 < n \<and> (\<forall>x \<in> set (timeouts s2). snd (snd x) \<noteq> e \<and> fst x < n)"
    using assms(4)
  proof
    assume nt: "no_timer_for e s"
    have "set (timeouts s2) \<subseteq> set (timeouts s)"
      by (auto simp: s2_def s1_def clearTimeout_def split: option.splits)
    with nt show ?thesis
      by (auto simp: no_timer_for_def list_all_iff n_def)
  next
    assume "\<exists>d. timer_for e s d"
    then obtain d where tf: "timer_for e s d" ..
    then obtain t where t: "map_of (debounceTimers s) e = Some t" "t \<noteq> 0"
      by (auto simp: timer_for_def split: option.splits)
    then have "nextTimer s2 = nextTimer s"
      "timeouts s2 = filter (\<lambda>x. fst x \<noteq> the (map_of (debounceTimers s) e)) (timeouts s)"
      by (simp_all add: s2_def s1_def clearTimeout_def)
    from timer_for_cleared [OF tf this] fr2(1) show ?thesis
      by simp
  qed
  then have none: "filter (\<lambda>x. fst x = n \<or> snd (snd x) = e) (timeouts s2) = []"
    by (auto simp: filter_empty_conv)
  have "timer_for e s3 (now s + INPUT_DEBOUNCE_MS)"
    using clean none
    by (auto simp: timer_for_def s3_def update_conv' list_all_iff)
  moreover have "sent_for e s3 = sent_for e s" "lastRecordedValues s3 e = lastRecordedValues s e"
    "fieldValue s3 e = v" "recordingStartTime s3 = recordingStartTime s"
    "inputCallback s3 = inputCallback s" "listening s3" "now s3 = now s"
    using fr2 assms(1) by (simp_all add: s3_def)
  ultimately show ?thesis
    by (simp add: ev)
qed

lemma first_input_arms:
  assumes "listening s" and "recordingStartTime s = Some t0"
    and "debounced_field (doc p) (field_of p e)"
    and "no_timer_for e s \<or> (\<exists>due. timer_for e s due \<and> now s + gap < due)"
  shows "armed s e (input_event p e v (run_until p (now s + gap) s)) v"
proof -
  let ?r = "run_until p (now s + gap) s"
  have r: "kept_for e s ?r \<and> (no_timer_for e ?r \<or> (\<exists>d. timer_for e ?r d))"
    using assms(4)
  proof
    assume "no_timer_for e s"
    from run_until_no_timer [OF this, of p "now s + gap"] show ?thesis
      by simp
  next
    assume "\<exists>due. timer_for e s due \<and> now s + gap < due"
    then obtain due where "timer_for e s due" "now s + gap < due" by blast
    from run_until_keeps_timer [OF this, of p] show ?thesis
      by blast
  qed
  then have k: "kept_for e s ?r" and t: "no_timer_for e ?r \<or> (\<exists>d. timer_for e ?r d)"
    by simp_all
  from k assms(1,2) have h: "listening ?r" "recordingStartTime ?r = Some t0"
    by (simp_all add: kept_for_def)
  from input_event_arms [OF h assms(3) t, of v] k show ?thesis
    by (simp add: armed_def kept_for_def)
qed

lemma next_input_arms:
  assumes "armed s0 e s v" and "recordingStartTime s0 = Some t0"
    and "debounced_field (doc p) (field_of p e)" and "gap < INPUT_DEBOUNCE_MS"
  shows "armed s0 e (input_event p e v' (run_until p (now s + gap) s)) v'"
proof -
  let ?r = "run_until p (now s + gap) s"
  from assms(1) have tf: "timer_for e s (now s + INPUT_DEBOUNCE_MS)"
    by (simp add: armed_def)
  from assms(4) have "now s + gap < now s + INPUT_DEBOUNCE_MS"
    by simp
  from run_until_keeps_timer [OF tf this, of p]
  have t: "timer_for e ?r (now s + INPUT_DEBOUNCE_MS)" and k: "kept_for e s ?r"
    by simp_all
  from t have t': "no_timer_for e ?r \<or> (\<exists>d. timer_for e ?r d)"
    by blast
  from k assms(1,2) have h: "listening ?r" "recordingStartTime ?r = Some t0"
    by (simp_all add: kept_for_def armed_def)
  from input_event_arms [OF h assms(3) t', of v'] k assms(1) show ?thesis
    by (simp add: armed_def kept_for_def)
qed

lemma burst_keeps_armed:
  assumes "armed s0 e s v" and "recordingStartTime s0 = Some t0"
    and "debounced_field (doc p) (field_of p e)"
    and "\<forall>(gap, v') \<in> set evs. 0 \<le> gap \<and> gap < 1000"
  shows "armed s0 e (burst p e evs s) (if evs = [] then v else snd (last evs))"
  using assms(1,4)
proof (induction evs arbitrary: s v)
  case Nil
  then show ?case by simp
next
  case (Cons x evs)
  obtain gap v' where x: "x = (gap, v')" by (cases x)
  from Cons.prems(2) x have g: "gap < INPUT_DEBOUNCE_MS"
    by (simp add: INPUT_DEBOUNCE_MS_def)
  from next_input_arms [OF Cons.prems(1) assms(2,3) g, of v']
  have a: "armed s0 e (input_event p e v' (run_until p (now s + gap) s)) v'" .
  from Cons.IH [OF a] Cons.prems(2) x show ?case
    by auto
qed

lemma burst_arms:
  assumes "listening s" and "recordingStartTime s = Some t0"
    and "debounced_field (doc p) (field_of p e)"
    and "no_timer_for e s \<or> (\<exists>due. timer_for e s due \<and> now s + g0 < due)"
    and "\<forall>(gap, v) \<in> set rest. 0 \<le> gap \<and> gap < 1000"
  shows "armed s e (burst p e ((g0, v0) # rest) s) (snd (last ((g0, v0) # rest)))"
proof -
  from first_input_arms [OF assms(1-4), of v0]
  have a: "armed s e (input_event p e v0 (run_until p (now s + g0) s)) v0" .
  from burst_keeps_armed [OF a assms(2,3,5)] show ?thesis
    by (cases "rest = []") simp_all
qed

lemma armed_timer_fires:
  assumes a: "armed s0 e s v" and rec: "recordingStartTime s0 = Some t0"
    and cb: "inputCallback s0 = Some c" and k: "debounced_field (doc p) (field_of p e)"
    and w: "1000 \<le> w"
    and rv: "getRecordableValue (doc p) (field_of p e) v = Inr (rv, sens)"
    and inf: "getElementInfo p e = Inr info"
  shows "sent_for e (run_until p (now s + w) s) =
           sent_for e s0 @ (if lastRecordedValues s0 e = Some rv then []
                      else [\<lparr> msg_element = info, msg_value = rv, msg_isSensitive = sens,
                              msg_url = href p,
                              msg_timestamp = now s + 1000 - t0 \<rparr>])"
proof -
  from k have sel: "el_kind (field_of p e) \<noteq> HTMLSelectElement"
    by (auto simp: debounced_field_def)
  from a have tf: "timer_for e s (now s + 1000)"
    by (simp add: armed_def INPUT_DEBOUNCE_MS_def)
  from w have due: "now s + 1000 \<le> now s + w" "now s \<le> now s + 1000" by simp_all
  from a rec cb rv have h: "recordingStartTime s = Some t0" "inputCallback s = Some c"
    "getRecordableValue (doc p) (field_of p e) (fieldValue s e) = Inr (rv, sens)"
    by (simp_all add: armed_def)
  from run_until_fires [OF tf due h(1,2) sel h(3) inf] a show ?thesis
    by (simp add: armed_def)
qed

lemma armed_blur:
  assumes a: "armed s0 e s v" and rec: "recordingStartTime s0 = Some t0"
    and cb: "inputCallback s0 = Some c" and k: "debounced_field (doc p) (field_of p e)"
    and g: "0 \<le> g" "g < 1000"
    and rv: "getRecordableValue (doc p) (field_of p e) v = Inr (rv, sens)"
    and inf: "getElementInfo p e = Inr info"
  shows "sent_for e (blur_event p e (run_until p (now s + g) s)) =
           sent_for e s0 @ (if lastRecordedValues s0 e = Some rv then []
                      else [\<lparr> msg_element = info, msg_value = rv, msg_isSensitive = sens,
                              msg_url = href p, msg_timestamp = now s + g - t0 \<rparr>]) \<and>
         no_timer_for e (blur_event p e (run_until p (now s + g) s))"
proof -
  from k have sel: "el_kind (field_of p e) \<noteq> HTMLSelectElement"
    and kind: "el_kind (field_of p e) = HTMLInputElement \<or>
               el_kind (field_of p e) = HTMLTextAreaElement"
    by (auto simp: debounced_field_def)
  let ?r = "run_until p (now s + g) s"
  from a have tf: "timer_for e s (now s + 1000)"
    by (simp add: armed_def INPUT_DEBOUNCE_MS_def)
  from g have "now s + g < now s + 1000" by simp
  from run_until_keeps_timer [OF tf this, of p]
  have t: "timer_for e ?r (now s + 1000)" and kp: "kept_for e s ?r"
    by simp_all
  from g have n: "now ?r = now s + g"
    by (simp add: now_run_until)
  from t obtain tid where tid: "map_of (debounceTimers ?r) e = Some tid" "tid \<noteq> 0"
    by (auto simp: timer_for_def split: option.splits)
  let ?r2 = "(clearTimeout tid ?r)\<lparr>debounceTimers := AList.delete e (debounceTimers ?r)\<rparr>"
  from kp a rec cb rv have h: "recordingStartTime ?r = Some t0" "inputCallback ?r = Some c"
    "listening ?r" "fieldValue ?r e = v" "sent_for e ?r = sent_for e s0"
    "lastRecordedValues ?r e = lastRecordedValues s0 e"
    by (simp_all add: armed_def kept_for_def)
  have blur: "blur_event p e ?r = snd (recordInputChange p e ?r2)"
    using h(1,3) kind tid by (auto simp: blur_event_def handleBlurEvent_def Let_def)
  have h2: "recordingStartTime ?r2 = Some t0" "inputCallback ?r2 = Some c"
    "getRecordableValue (doc p) (field_of p e) (fieldValue ?r2 e) = Inr (rv, sens)"
    using h rv by (simp_all add: clearTimeout_def)
  from recordInputChange_emits [OF h2(1,2) sel h2(3) inf] h n
  have out: "sent_for e (snd (recordInputChange p e ?r2)) =
           sent_for e s0 @ (if lastRecordedValues s0 e = Some rv then []
                      else [\<lparr> msg_element = info, msg_value = rv, msg_isSensitive = sens,
                              msg_url = href p, msg_timestamp = now s + g - t0 \<rparr>])"
    by (simp add: clearTimeout_def)
  let ?r3 = "snd (recordInputChange p e ?r2)"
  from recordInputChange_frame [of p e ?r2] tid
  have fr: "nextTimer ?r3 = nextTimer ?r"
    "timeouts ?r3 = filter (\<lambda>x. fst x \<noteq> the (map_of (debounceTimers ?r) e)) (timeouts ?r)"
    "debounceTimers ?r3 = AList.delete e (debounceTimers ?r)"
    by (simp_all add: clearTimeout_def)
  from timer_for_cleared [OF t fr(1,2)] have "no_timer_for e ?r3"
    by (rule no_timer_for_after) (simp add: fr(3) delete_conv')
  with out show ?thesis
    by (simp add: blur)
qed

text \<open>
  Claim C3, amended. Tracking is active and the field is one whose edits are debounced.
  When the burst begins, no timeout is pending for the field, or the one pending is due
  only after the first edit; timeouts of other fields may be pending, and the timer ids
  are as a browser issues them. The first edit
  comes \<open>g0\<close> after the initial state, every later one less than 1000 ms after the one
  before it. Reading the final value as it is to be recorded and describing the field do
  not throw. Then, once 1000 ms or more have passed after the last edit, the messages
  sent for the field are the ones sent before the burst and one more, which carries the
  final value (masked if the field is sensitive) and the time at which the timer fired;
  none is added if that value is the one last recorded for the field. If instead the
  field loses focus before the timer fires, the same single message is sent at once, with
  the time of the blur, and the passing of time adds no message for the field afterwards.
\<close>

theorem burst_coalesced:
  assumes "listening s" and "recordingStartTime s = Some t0" and "inputCallback s = Some c"
    and "debounced_field (doc p) (field_of p e)"
    and "no_timer_for e s \<or> (\<exists>due. timer_for e s due \<and> now s + g0 < due)"
    and "\<forall>(gap, v) \<in> set rest. 0 \<le> gap \<and> gap < 1000"
    and "getRecordableValue (doc p) (field_of p e) (snd (last ((g0, v0) # rest)))
           = Inr (rv, sens)"
    and "getElementInfo p e = Inr info"
  shows "(1000 \<le> w \<longrightarrow>
            sent_for e (run_until p (now (burst p e ((g0, v0) # rest) s) + w)
                          (burst p e ((g0, v0) # rest) s)) =
              sent_for e s @
                (if lastRecordedValues s e = Some rv then []
                 else [\<lparr> msg_element = info, msg_value = rv, msg_isSensitive = sens,
                         msg_url = href p,
                         msg_timestamp = now (burst p e ((g0, v0) # rest) s) + 1000 - t0 \<rparr>])) \<and>
         (0 \<le> g \<and> g < 1000 \<longrightarrow>
            sent_for e (blur_event p e
                          (run_until p (now (burst p e ((g0, v0) # rest) s) + g)
                             (burst p e ((g0, v0) # rest) s))) =
              sent_for e s @
                (if lastRecordedValues s e = Some rv then []
                 else [\<lparr> msg_element = info, msg_value = rv, msg_isSensitive = sens,
                         msg_url = href p,
                         msg_timestamp = now (burst p e ((g0, v0) # rest) s) + g - t0 \<rparr>]) \<and>
            sent_for e (run_until p t
                          (blur_event p e
                             (run_until p (now (burst p e ((g0, v0) # rest) s) + g)
                                (burst p e ((g0, v0) # rest) s)))) =
              sent_for e (blur_event p e
                            (run_until p (now (burst p e ((g0, v0) # rest) s) + g)
                               (burst p e ((g0, v0) # rest) s))))"
proof -
  define b where "b = burst p e ((g0, v0) # rest) s"
  note a = burst_arms [OF assms(1,2,4,5,6), of v0, folded b_def]
  have fire: "sent_for e (run_until p (now b + w) b) =
      sent_for e s @
        (if lastRecordedValues s e = Some rv then []
         else [\<lparr> msg_element = info, msg_value = rv, msg_isSensitive = sens,
                 msg_url = href p, msg_timestamp = now b + 1000 - t0 \<rparr>])"
    if "1000 \<le> w"
    using armed_timer_fires [OF a assms(2,3,4) that assms(7,8)] .
  have blur: "sent_for e (blur_event p e (run_until p (now b + g) b)) =
      sent_for e s @
        (if lastRecordedValues s e = Some rv then []
         else [\<lparr> msg_element = info, msg_value = rv, msg_isSensitive = sens,
                 msg_url = href p, msg_timestamp = now b + g - t0 \<rparr>]) \<and>
      sent_for e (run_until p t (blur_event p e (run_until p (now b + g) b))) =
        sent_for e (blur_event p e (run_until p (now b + g) b))"
    if g: "0 \<le> g" "g < 1000"
  proof -
    note bl = armed_blur [OF a assms(2,3,4) g assms(7,8)]
    then have "no_timer_for e (blur_event p e (run_until p (now b + g) b))"
      by simp
    from run_until_no_timer [OF this, of p t] bl show ?thesis
      by (simp add: kept_for_def)
  qed
  from fire blur show ?thesis
    unfolding b_def by blast
qed

text \<open>
  A burst on field 0 of the example page while the timer of the password field is still
  pending, ended by the timer and ended by a blur. The password's timer fires in
  between and its message is sent; one message is sent for field 0.
\<close>

theorem burst_coalesced_witness:
  "listening typing_password \<and> recordingStartTime typing_password = Some 100000 \<and>
   inputCallback typing_password = Some SendToBackground \<and>
   debounced_field (doc form_page) (field_of form_page 0) \<and>
   timeouts typing_password = [(3, 101500, 1)] \<and> no_timer_for 0 typing_password \<and>
   getRecordableValue (doc form_page) (field_of form_page 0) ''user'' = Inr (''user'', False) \<and>
   getElementInfo form_page 0 = Inr search_info \<and>
   sent_for 0 (run_until form_page (now typing_user_too + 1000) typing_user_too)
     = [search_msg ''user'' 2000] \<and>
   sent (run_until form_page (now typing_user_too + 1000) typing_user_too)
     = [pw_msg 1500, search_msg ''user'' 2000] \<and>
   sent_for 0 (blur_event form_page 0
                 (run_until form_page (now typing_user_too + 300) typing_user_too))
     = [search_msg ''user'' 1300] \<and>
   sent_for 0 (run_until form_page 200000
                 (blur_event form_page 0
                    (run_until form_page (now typing_user_too + 300) typing_user_too)))
     = [search_msg ''user'' 1300]"
proof -
  have h: "listening typing_password" "recordingStartTime typing_password = Some 100000"
    "inputCallback typing_password = Some SendToBackground"
    "debounced_field (doc form_page) (field_of form_page 0)"
    by code_simp+
  have pending: "timeouts typing_password = [(3, 101500, 1)]"
    by code_simp
  have nt: "no_timer_for 0 typing_password"
    by code_simp
  then have start: "no_timer_for 0 typing_password \<or>
      (\<exists>due. timer_for 0 typing_password due \<and> now typing_password + 0 < due)"
    by simp
  have evs: "\<forall>(gap, v) \<in> set [(200 :: int, ''us''), (300, ''user'')]. 0 \<le> gap \<and> gap < 1000"
    by simp
  have r: "getRecordableValue (doc form_page) (field_of form_page 0)
             (snd (last [(0 :: int, ''u''), (200, ''us''), (300, ''user'')])) = Inr (''user'', False)"
    "getElementInfo form_page 0 = Inr search_info"
    by code_simp+
  have e: "sent_for 0 typing_password = []" "lastRecordedValues typing_password 0 = None"
    "now typing_user_too = 101000" "href form_page = ''https://example.com/''"
    by code_simp+
  have all: "sent (run_until form_page (now typing_user_too + 1000) typing_user_too)
     = [pw_msg 1500, search_msg ''user'' 2000]"
    by code_simp
  note t = burst_coalesced [OF h start evs r, of 1000 300 200000, folded typing_user_too_def]
  from t e have 1: "sent_for 0 (run_until form_page (now typing_user_too + 1000) typing_user_too)
      = [search_msg ''user'' 2000]"
    by (simp add: search_msg_def)
  from t e have 2: "sent_for 0 (blur_event form_page 0
        (run_until form_page (now typing_user_too + 300) typing_user_too))
      = [search_msg ''user'' 1300]"
    by (simp add: search_msg_def)
  from t 2 have 3: "sent_for 0 (run_until form_page 200000
           (blur_event form_page 0
              (run_until form_page (now typing_user_too + 300) typing_user_too)))
     = [search_msg ''user'' 1300]"
    by simp
  from h pending nt r all 1 2 3 show ?thesis by simp
qed

text \<open>
  Two bursts after which no message is sent, against Claim C3 as it stands. On the
  example page, \<open>user\<close> has been recorded for field 0; the user then appends \<open>x\<close> and
  deletes it again, so the burst ends on the value last recorded, and
  \<open>recordInputChange\<close> returns at its comparison (inputHandler.ts 148-152). On the
  page with the \<open>x:panel\<close> element, the first edit of field 0 sends nothing either:
  synthesizing the selector throws when the timer fires.
\<close>

theorem unchanged_final_value_counterexample:
  "debounced_field (doc form_page) (field_of form_page 0) \<and> timeouts typed_user = [] \<and>
   lastRecordedValues typed_user 0 = Some ''user'' \<and>
   sent typed_user = [search_msg ''user'' 1500] \<and>
   fieldValue retyped_user 0 = ''user'' \<and>
   sent (run_until form_page (now retyped_user + 1000) retyped_user)
     = [search_msg ''user'' 1500] \<and>
   debounced_field (doc panel_page) (field_of panel_page 0) \<and>
   timeouts recording = [] \<and> sent recording = [] \<and> lastRecordedValues recording 0 = None \<and>
   sent (run_until panel_page (now typing_note + 1000) typing_note) = []"
  by code_simp


section \<open>Stopping with inputs pending\<close>

text \<open>
  What the content script does for the pending fields when it stops, where nothing
  throws: under the conditions of \<open>flushable\<close>, a message carrying the current value of
  each field (as it is to be recorded) has been sent once the stop returns, the timers
  are cancelled, the messages sent before are still there, and both maps are empty.
\<close>

lemma stop_flushes_pending_inputs:
  assumes "cs_isRecording s" and "recordingStartTime s = Some t0" and "inputCallback s = Some c"
    and "\<forall>(e, t) \<in> set (debounceTimers s). flushable p s e"
  shows "fst (cs_stopRecording p s) = None \<and>
         (\<forall>(e, t) \<in> set (debounceTimers s).
            value_was_sent p s e (snd (cs_stopRecording p s)) \<and>
            t \<notin> fst ` set (timeouts (snd (cs_stopRecording p s)))) \<and>
         prefix (sent s) (sent (snd (cs_stopRecording p s))) \<and>
         debounceTimers (snd (cs_stopRecording p s)) = [] \<and>
         lastRecordedValues (snd (cs_stopRecording p s)) = Map.empty \<and>
         recordingStartTime (snd (cs_stopRecording p s)) = None \<and>
         inputCallback (snd (cs_stopRecording p s)) = None \<and>
         \<not> listening (snd (cs_stopRecording p s)) \<and>
         \<not> cs_isRecording (snd (cs_stopRecording p s))"
proof -
  note fl = flush_entries_flushable [OF assms(2,3,4)]
  obtain f where none: "flush_entries p (debounceTimers s) s = (None, f)"
    using fl by (cases "flush_entries p (debounceTimers s) s") auto
  from fl have f: "prefix (sent s) (sent f)"
    "\<forall>(e, t) \<in> set (debounceTimers s). value_was_sent p s e f"
    "timeouts f = filter (\<lambda>x. fst x \<notin> snd ` set (debounceTimers s)) (timeouts s)"
    by (simp_all add: none)
  let ?s1 = "f\<lparr>debounceTimers := []\<rparr>"
  have flushed: "flushPendingInputs p s = (None, ?s1)"
    by (simp add: flushPendingInputs_def none)
  define s' where
    "s' = (stopInputTracking ?s1)\<lparr>cs_isRecording := False, cs_recordingStartTime := None\<rparr>"
  have stop: "cs_stopRecording p s = (None, s')"
    using assms(1) flushed by (simp add: cs_stopRecording_def s'_def)
  have sent': "sent s' = sent f" and timeouts': "timeouts s' = timeouts f"
    by (simp_all add: stopInputTracking_def s'_def)
  have sentv: "value_was_sent p s e s'" if "(e, t) \<in> set (debounceTimers s)" for e t
  proof -
    from f(2) that have "value_was_sent p s e f" by auto
    then show ?thesis
      by (rule value_was_sent_mono) (simp add: sent')
  qed
  have cancelled: "t \<notin> fst ` set (timeouts s')" if "(e, t) \<in> set (debounceTimers s)" for e t
  proof -
    from that have "t \<in> snd ` set (debounceTimers s)" by force
    then show ?thesis by (force simp: timeouts' f(3))
  qed
  from sentv cancelled
  have both: "\<forall>(e, t) \<in> set (debounceTimers s).
      value_was_sent p s e s' \<and> t \<notin> fst ` set (timeouts s')"
    by blast
  have pre: "prefix (sent s) (sent s')"
    using f(1) by (simp add: sent')
  have cleared: "debounceTimers s' = []" "lastRecordedValues s' = Map.empty"
    "recordingStartTime s' = None" "inputCallback s' = None" "\<not> listening s'"
    "\<not> cs_isRecording s'"
    by (simp_all add: stopInputTracking_def s'_def)
  from both pre cleared show ?thesis
    by (simp only: stop fst_conv snd_conv simp_thms)
qed

text \<open>
  The orchestrator, once its \<open>stopRecording\<close> has run its assignments, adds no step for
  an \<^verbatim>\<open>INPUT_EVENT\<close>: \<open>addStep\<close> returns \<open>null\<close> for a session that is not recording
  (background/index.ts 245-248).
\<close>

lemma stopped_session_drops_inputs:
  "snd (onMessage ev' (INPUT_EVENT m) sender (snd (stopRecording ev s))) = snd (stopRecording ev s)"
  by (cases "currentSession s")
    (simp_all add: stopRecording_def saveSessionMetadata_def onMessage_def addStep_def Let_def)

lemma deliver_stopped: "deliver ev' tid ms (snd (stopRecording ev b)) = snd (stopRecording ev b)"
  by (induction ms) (simp_all add: deliver_def stopped_session_drops_inputs)

text \<open>
  So whatever the content script flushes when it is told to stop, the session keeps the
  steps it had.
\<close>

lemma stop_in_tab_adds_no_step:
  "fst (stop_in_tab ev p tid b s) = snd (stopRecording ev b) \<and>
   map_option steps (currentSession (fst (stop_in_tab ev p tid b s)))
     = map_option steps (currentSession b)"
proof -
  have 1: "fst (stop_in_tab ev p tid b s) = snd (stopRecording ev b)"
    by (simp add: stop_in_tab_def Let_def deliver_stopped)
  have 2: "map_option steps (currentSession (snd (stopRecording ev b)))
      = map_option steps (currentSession b)"
    by (cases "currentSession b")
      (simp_all add: stopRecording_def saveSessionMetadata_def Let_def)
  from 1 2 show ?thesis by simp
qed


end
